(* ===== verification/Prelude.thy ===== *)
theory Prelude
  imports Main "HOL-Library.Word"
begin

text \<open>
  Shared vocabulary of the development: the byte type of BLE payloads, the Python
  exceptions the sensor code can raise, the Python semantics of the few builtins it
  relies on (slicing, two's complement reads done by \<open>struct.unpack\<close>, \<open>int(bool)\<close>),
  and the generic lemmas on bytes, integers and bit masks the component theories share.
\<close>

unbundle bit_operations_syntax

named_theorems py_simps \<open>evaluation rules of the Python builtins modelled here\<close>

type_synonym byte = "8 word"
type_synonym bytes = "byte list"

text \<open>
  The exceptions that the code of \<open>src/sensor.py\<close> raises or catches. \<open>StructError\<close>
  is \<open>struct.error\<close> (wrong buffer size for \<open>unpack\<close>); \<open>NameError\<close> an unresolved
  global name; \<open>TypeError\<close> an operation on \<open>None\<close>; \<open>AttributeError\<close> an attribute
  of \<open>None\<close>; \<open>KeyError\<close> a missing key of a dictionary.
\<close>

datatype py_error = StructError | NameError | TypeError | AttributeError | KeyError

text \<open>
  Python's slice \<open>xs[i:j]\<close> for \<open>0 \<le> i \<le> j\<close>: the elements at positions
  \<open>i, \<dots>, j - 1\<close> that exist. A slice never raises; it is shorter when the list is.
\<close>

definition py_slice :: "'a list \<Rightarrow> nat \<Rightarrow> nat \<Rightarrow> 'a list" where
  "py_slice xs i j = take (j - i) (drop i xs)"

text \<open>
  The two's complement reading of an \<open>n\<close>-bit unsigned value \<open>u\<close>, as \<open>struct\<close>
  reads the formats \<open>b\<close> (\<open>n = 8\<close>) and \<open>h\<close> (\<open>n = 16\<close>).
\<close>

definition twos :: "nat \<Rightarrow> int \<Rightarrow> int" where
  "twos n u = (if u < 2 ^ (n - 1) then u else u - 2 ^ n)"

text \<open>Python's \<open>int(b)\<close> for a boolean \<open>b\<close>.\<close>

definition py_int_of_bool :: "bool \<Rightarrow> int" where
  "py_int_of_bool b = (if b then 1 else 0)"

text \<open>
  Generic views of the model's maps: the keys of a map whose value satisfies \<open>P\<close>
  (the tasks suspended at a given kind of point), and the keys a function sends to one
  value (the links in a given state).
\<close>

definition with_prop :: "('v \<Rightarrow> bool) \<Rightarrow> ('k \<rightharpoonup> 'v) \<Rightarrow> 'k set" where
  "with_prop P m = {k. \<exists>v. m k = Some v \<and> P v}"

definition keys_with :: "('k \<Rightarrow> 'v) \<Rightarrow> 'v \<Rightarrow> 'k set" where
  "keys_with f v = {k. f k = v}"

text \<open>The total weight of the values a map holds at the keys below \<open>N\<close>.\<close>

definition map_weight :: "('v \<Rightarrow> nat) \<Rightarrow> (nat \<rightharpoonup> 'v) \<Rightarrow> nat \<Rightarrow> nat" where
  "map_weight f m N = (\<Sum>k<N. case m k of None \<Rightarrow> 0 | Some v \<Rightarrow> f v)"

lemma py_slice_length [simp]:
  "length (py_slice xs i j) = min (j - i) (length xs - i)"
  by (simp add: py_slice_def)

lemma py_slice_nth [simp]:
  assumes "k < length (py_slice xs i j)"
  shows "py_slice xs i j ! k = xs ! (i + k)"
proof -
  from assms have "i \<le> length xs" by (simp add: min_def split: if_splits)
  with assms show ?thesis by (simp add: py_slice_def nth_drop)
qed

lemma py_slice_full_length:
  "j \<le> length xs \<Longrightarrow> i \<le> j \<Longrightarrow> length (py_slice xs i j) = j - i"
  by simp

lemma py_int_of_bool_eq_0 [simp]: "(py_int_of_bool b = 0) \<longleftrightarrow> \<not> b"
  by (simp add: py_int_of_bool_def)

lemmas [py_simps] = py_slice_def twos_def py_int_of_bool_def

text \<open>
  The two's complement read of an \<open>n\<close>-bit word is the library's signed value
  \<open>sint\<close>; for a byte this is the format \<open>b\<close>.
\<close>

lemma twos_uint_word: "twos LENGTH('a) (uint (x :: 'a :: len word)) = sint x"
proof -
  define n where "n = LENGTH('a) - 1"
  have len: "LENGTH('a) = Suc n" by (simp add: n_def)
  have "sint x = signed_take_bit n (uint x)" by (simp add: sint_uint n_def)
  also have "\<dots> = (uint x + 2 ^ n) mod 2 ^ Suc n - 2 ^ n"
    by (simp add: signed_take_bit_eq_take_bit_shift take_bit_eq_mod)
  finally have s: "sint x = (uint x + 2 ^ n) mod 2 ^ Suc n - 2 ^ n" .
  have r: "0 \<le> uint x" "uint x < 2 ^ Suc n" using uint_lt2p [of x] by (simp_all add: len)
  show ?thesis
  proof (cases "uint x < 2 ^ n")
    case True
    with r have "(uint x + 2 ^ n) mod 2 ^ Suc n = uint x + 2 ^ n" by simp
    with True s show ?thesis by (simp add: twos_def len)
  next
    case False
    with r have "(uint x + 2 ^ n) mod 2 ^ Suc n = uint x + 2 ^ n - 2 ^ Suc n"
      by (simp add: mod_pos_geq)
    with False s show ?thesis by (simp add: twos_def len)
  qed
qed

lemma twos_uint_byte [simp]: "twos 8 (uint (b :: byte)) = sint b"
  using twos_uint_word [of b] by simp

lemma uint_word_of_int_byte [simp]: "uint (word_of_int x :: byte) = x mod 256"
  by (simp add: uint_word_of_int_eq take_bit_eq_mod)

text \<open>Bounds of a two's complement value built from two bytes.\<close>

lemma uint_byte_bounds: "0 \<le> uint (b :: byte)" "uint (b :: byte) \<le> 255"
  using uint_lt2p [of b] by simp_all

lemma twos16_bounds:
  assumes "0 \<le> u" "u < 65536"
  shows "- 32768 \<le> twos 16 u \<and> twos 16 u \<le> 32767"
  using assms by (simp add: twos_def)

text \<open>Two bytes concatenated, high byte first, into a 16-bit word.\<close>

lemma uint_word_cat_bytes:
  "uint (word_cat hi lo :: 16 word) = uint (hi :: byte) * 256 + uint (lo :: byte)"
proof -
  have b: "0 \<le> uint hi * 256 + uint lo" "uint hi * 256 + uint lo < 65536"
    using uint_byte_bounds [of hi] uint_byte_bounds [of lo] by simp_all
  have "uint (word_cat hi lo :: 16 word) = take_bit 16 (concat_bit 8 (uint lo) (uint hi))"
    by (simp add: word_cat_eq' uint_word_of_int_eq)
  also have "concat_bit 8 (uint lo) (uint hi) = uint lo + push_bit 8 (uint hi)"
    using uint_byte_bounds [of lo] by (simp add: concat_bit_eq take_bit_int_eq_self_iff)
  also have "\<dots> = uint hi * 256 + uint lo" by (simp add: push_bit_eq_mult)
  finally show ?thesis using b by (simp add: take_bit_int_eq_self_iff)
qed

text \<open>The mask \<open>0xA0\<close> keeps bits 5 and 7; an integer passes it exactly when both are set.\<close>

lemma bit_160_iff: "bit (160 :: int) n \<longleftrightarrow> n = 5 \<or> n = 7"
proof -
  have eq: "(160 :: int) = 2 ^ 5 OR 2 ^ 7" by simp
  show ?thesis unfolding eq bit_or_iff bit_exp_iff by auto
qed

lemma and_160_eq_160_iff: "((x :: int) AND 160 = 160) \<longleftrightarrow> bit x 7 \<and> bit x 5"
proof -
  have "(x AND 160 = 160) \<longleftrightarrow> (\<forall>n. bit (x AND 160) n = bit (160 :: int) n)"
    by (simp add: bit_eq_iff)
  also have "\<dots> \<longleftrightarrow> bit x 7 \<and> bit x 5"
    by (auto simp: bit_and_iff bit_160_iff)
  finally show ?thesis .
qed

lemma byte_and_160_eq_160_iff: "((c :: byte) AND 0xA0 = 0xA0) \<longleftrightarrow> bit c 7 \<and> bit c 5"
proof -
  have "(c AND 0xA0 = 0xA0) \<longleftrightarrow> uint (c AND 0xA0) = uint (0xA0 :: byte)"
    by (rule word_uint_eq_iff)
  also have "\<dots> \<longleftrightarrow> uint c AND 160 = 160" by (simp add: uint_and)
  also have "\<dots> \<longleftrightarrow> bit (uint c) 7 \<and> bit (uint c) 5" by (rule and_160_eq_160_iff)
  also have "\<dots> \<longleftrightarrow> bit c 7 \<and> bit c 5" by (simp add: bit_uint_iff)
  finally show ?thesis .
qed

text \<open>Below its width, a bit of \<open>sint b\<close> is the bit of the byte.\<close>

lemma bit_sint_byte_low: "n < 8 \<Longrightarrow> bit (sint (b :: byte)) n \<longleftrightarrow> bit b n"
  by (simp add: bit_sint_iff)

subsection \<open>Maps and their views\<close>

text \<open>
  Updates rewrite a view of the new map into the view of the old one, so that an
  invariant stated as an equation between views is carried through each update by
  \<open>simp\<close>.
\<close>

lemma with_prop_upd [simp]:
  "with_prop P (m(k := v)) =
     (case v of
        Some x \<Rightarrow> (if P x then insert k (with_prop P m)
                   else if (case m k of Some y \<Rightarrow> P y | None \<Rightarrow> False) then with_prop P m - {k}
                   else with_prop P m)
      | None \<Rightarrow> (if (case m k of Some y \<Rightarrow> P y | None \<Rightarrow> False) then with_prop P m - {k}
                 else with_prop P m))"
  by (auto simp: with_prop_def split: option.splits if_splits)

lemma with_prop_empty [simp]: "with_prop P Map.empty = {}"
  by (simp add: with_prop_def)

lemma mem_with_prop: "k \<in> with_prop P m \<longleftrightarrow> (\<exists>v. m k = Some v \<and> P v)"
  by (simp add: with_prop_def)

lemma with_prop_eq_memD: "with_prop P m = S \<Longrightarrow> m k = Some v \<Longrightarrow> P v \<Longrightarrow> k \<in> S"
  by (auto simp: with_prop_def)

lemma with_prop_eq_nmemD: "with_prop P m = S \<Longrightarrow> m k = Some v \<Longrightarrow> k \<notin> S \<Longrightarrow> \<not> P v"
  by (auto simp: with_prop_def)

lemma with_prop_subsetD: "with_prop P m \<subseteq> S \<Longrightarrow> m k = Some v \<Longrightarrow> P v \<Longrightarrow> k \<in> S"
  by (auto simp: with_prop_def)

lemma keys_with_upd [simp]:
  "keys_with (f(a := b)) v =
     (if b = v then insert a (keys_with f v) else if f a = v then keys_with f v - {a}
      else keys_with f v)"
  by (auto simp: keys_with_def)

lemma mem_keys_with [simp]: "k \<in> keys_with f v \<longleftrightarrow> f k = v"
  by (simp add: keys_with_def)

lemma keys_with_const [simp]: "keys_with (\<lambda>_. a) v = (if a = v then UNIV else {})"
  by (simp add: keys_with_def)

text \<open>Replacing or removing one value changes the total weight by that value's weight;
  keys above the bound where the map is empty add nothing.\<close>

lemma map_weight_upd:
  assumes "k < N" "m k = Some x"
  shows "map_weight f (m(k := v)) N + f x =
           map_weight f m N + (case v of None \<Rightarrow> 0 | Some y \<Rightarrow> f y)"
proof -
  let ?g = "\<lambda>m k. case m k of None \<Rightarrow> 0 | Some v \<Rightarrow> f v"
  have k: "k \<in> {..<N}" using assms(1) by simp
  have "map_weight f m N = f x + (\<Sum>j\<in>{..<N} - {k}. ?g m j)"
    unfolding map_weight_def using k assms(2) by (simp add: sum.remove)
  moreover have "map_weight f (m(k := v)) N = ?g (m(k := v)) k + (\<Sum>j\<in>{..<N} - {k}. ?g m j)"
    unfolding map_weight_def using k by (simp add: sum.remove)
  ultimately show ?thesis by (simp split: option.splits)
qed

lemma map_weight_extend:
  assumes "N \<le> N'" "\<forall>n. N \<le> n \<and> n < N' \<longrightarrow> m n = None"
  shows "map_weight f m N' = map_weight f m N"
proof -
  have "map_weight f m N' = map_weight f m N +
               (\<Sum>k\<in>{N..<N'}. case m k of None \<Rightarrow> 0 | Some v \<Rightarrow> f v)"
    unfolding map_weight_def lessThan_atLeast0
    using assms(1) by (simp add: sum.atLeastLessThan_concat)
  also have "(\<Sum>k\<in>{N..<N'}. case m k of None \<Rightarrow> 0 | Some v \<Rightarrow> f v) = 0"
    using assms(2) by simp
  finally show ?thesis by simp
qed

lemma map_weight_Suc:
  "map_weight f m (Suc N) = map_weight f m N + (case m N of None \<Rightarrow> 0 | Some v \<Rightarrow> f v)"
  by (simp add: map_weight_def)

lemma map_weight_mono:
  assumes "\<And>k. k < N \<Longrightarrow>
             (case m' k of None \<Rightarrow> 0 | Some v \<Rightarrow> f v) \<le> (case m k of None \<Rightarrow> 0 | Some v \<Rightarrow> f v)"
  shows "map_weight f m' N \<le> map_weight f m N"
  unfolding map_weight_def by (rule sum_mono) (simp add: assms)

text \<open>A map that is empty from \<open>N\<close> on holds keys below \<open>N\<close> only.\<close>

lemma fresh_keyD:
  assumes "\<forall>n\<ge>(N :: nat). m n = None" "m k = Some v"
  shows "k < N"
proof (rule ccontr)
  assume "\<not> k < N"
  then have "N \<le> k" by simp
  with assms(1) have "m k = None" by blast
  with assms(2) show False by simp
qed

end
