(* ===== verification/Decoder.thy ===== *)
theory Decoder
  imports Prelude
begin

text \<open>
  The payload decoder of \<open>src/sensor.py\<close>: \<open>read_stable\<close> (lines 57--59) and
  \<open>SenssunScaleSensor.decode_weight\<close> (lines 61--78), with the \<open>struct.unpack\<close> of
  the format \<open>">bhhb"\<close> they rely on. The decoder is pure; its result is a Python
  exception or the optional weight in grams.

  \<open>read_stable\<close> is written in the class body without \<open>self\<close> and called at line 70
  as the bare name \<open>read_stable(ctr1)\<close>. Python resolves a bare name in a method body in
  the function's locals, the module's globals and the builtins, never in the class body.
  The model makes that lookup explicit: \<open>decode_weight\<close> takes the binding of the name
  \<open>read_stable\<close> in the module's globals, \<open>sensor_globals_read_stable\<close> is that
  binding in \<open>sensor.py\<close> as written, and \<open>Some read_stable\<close> is the binding the
  author evidently meant (a module-level function, or \<open>SenssunScaleSensor.read_stable\<close>).
\<close>

text \<open>The 16-bit big-endian signed field of the format \<open>h\<close> with \<open>>\<close> byte order.\<close>

definition be_int16 :: "byte \<Rightarrow> byte \<Rightarrow> int" where
  "be_int16 hi lo = twos 16 (uint hi * 256 + uint lo)"

text \<open>
  \<open>struct.unpack(">bhhb", x)\<close>: exactly 6 bytes (no padding under the \<open>>\<close> byte order), else
  \<open>struct.error\<close>.
\<close>

definition unpack_bhhb :: "bytes \<Rightarrow> py_error + (int \<times> int \<times> int \<times> int)" where
  "unpack_bhhb x =
     (case x of
        [b0, h1, h2, g1, g2, c] \<Rightarrow>
          Inr (twos 8 (uint b0), be_int16 h1 h2, be_int16 g1 g2, twos 8 (uint c))
      | _ \<Rightarrow> Inl StructError)"

definition read_stable :: "int \<Rightarrow> int" where
  "read_stable ctr1 = py_int_of_bool (ctr1 AND 160 = 160)"

text \<open>
  The global names of \<open>sensor.py\<close> (lines 1--22: the imports, \<open>_LOGGER\<close>,
  \<open>NOTIFY_CHAR\<close>, \<open>async_setup_entry\<close> and the class) do not include
  \<open>read_stable\<close>.
\<close>

definition sensor_globals_read_stable :: "(int \<Rightarrow> int) option" where
  "sensor_globals_read_stable = None"

definition decode_weight :: "(int \<Rightarrow> int) option \<Rightarrow> bytes \<Rightarrow> py_error + int option" where
  "decode_weight rs data =
     (let xvalue = py_slice data 9 15 in
      case unpack_bhhb xvalue of
        Inl e \<Rightarrow> Inl e
      | Inr (_, weight_raw, _, ctr1) \<Rightarrow>
          (case rs of
             None \<Rightarrow> Inl NameError
           | Some read_stable_fn \<Rightarrow>
               (if read_stable_fn ctr1 = 0 then Inr None
                else Inr (Some (weight_raw * 100)))))"

text \<open>The stability test on the raw control byte (spec: bits \<open>0x80\<close> and \<open>0x20\<close>).\<close>

definition stable_byte :: "byte \<Rightarrow> bool" where
  "stable_byte c \<longleftrightarrow> bit c 7 \<and> bit c 5"

text \<open>
  The notification the scale sends (spec, section 8): nine leading bytes, the sign
  marker at offset 9, the big-endian raw weight at offsets 10--11, an ignored field and
  the control byte at offset 14. The firmware is not part of the repository; this is its
  payload layout as the spec describes it.
\<close>

definition scale_payload :: "int \<Rightarrow> byte \<Rightarrow> bytes" where
  "scale_payload w ctr1 =
     replicate 9 0 @ [1, word_of_int (w div 256), word_of_int w, 0, 0, ctr1]"

text \<open>
  A reference decoder written with the word library instead of \<open>struct\<close>: the
  stability mask applied to the raw control byte, and the raw weight as the signed value
  of the two bytes concatenated high byte first. Short payloads are rejected with the
  same exception as the code.
\<close>

definition decode_weight_word :: "bytes \<Rightarrow> py_error + int option" where
  "decode_weight_word data =
     (if length data < 15 then Inl StructError
      else if data ! 14 AND 0xA0 = 0xA0
      then Inr (Some (sint (word_cat (data ! 10) (data ! 11) :: 16 word) * 100))
      else Inr None)"

subsection \<open>Unpacking\<close>

lemma unpack_bhhb_six [simp]:
  "unpack_bhhb [b0, h1, h2, g1, g2, c] =
     Inr (sint b0, be_int16 h1 h2, be_int16 g1 g2, sint c)"
  by (simp add: unpack_bhhb_def)

lemma unpack_bhhb_error:
  "length x \<noteq> 6 \<Longrightarrow> unpack_bhhb x = Inl StructError"
  by (auto simp: unpack_bhhb_def split: list.splits)

lemma length_6_cases:
  assumes "length x = 6"
  obtains b0 h1 h2 g1 g2 c where "x = [b0, h1, h2, g1, g2, c]"
  using assms by (auto simp: numeral_eq_Suc length_Suc_conv)

lemma be_int16_bounds: "- 32768 \<le> be_int16 hi lo \<and> be_int16 hi lo \<le> 32767"
proof -
  have "0 \<le> uint hi * 256 + uint lo" "uint hi * 256 + uint lo < 65536"
    using uint_byte_bounds [of hi] uint_byte_bounds [of lo] by simp_all
  then show ?thesis unfolding be_int16_def by (rule twos16_bounds)
qed

lemma read_stable_sint: "read_stable (sint c) \<noteq> 0 \<longleftrightarrow> stable_byte c"
  by (simp add: read_stable_def and_160_eq_160_iff bit_sint_byte_low stable_byte_def)

text \<open>The six bytes \<open>data[9:15]\<close> of a payload of at least 15 bytes.\<close>

lemma slice_9_15:
  assumes "15 \<le> length data"
  shows "py_slice data 9 15 =
           [data ! 9, data ! 10, data ! 11, data ! 12, data ! 13, data ! 14]"
proof (rule nth_equalityI)
  show "length (py_slice data 9 15) =
          length [data ! 9, data ! 10, data ! 11, data ! 12, data ! 13, data ! 14]"
    using assms by simp
next
  fix k assume "k < length (py_slice data 9 15)"
  then have "k < 6" using assms by simp
  then show "py_slice data 9 15 ! k =
               [data ! 9, data ! 10, data ! 11, data ! 12, data ! 13, data ! 14] ! k"
    using assms by (auto simp: less_Suc_eq numeral_eq_Suc)
qed

text \<open>A payload shorter than 15 bytes leaves fewer than 6 bytes in \<open>data[9:15]\<close>.\<close>

lemma slice_short: "length data < 15 \<Longrightarrow> length (py_slice data 9 15) \<noteq> 6"
  by simp

lemma decode_weight_long:
  "15 \<le> length data \<Longrightarrow> decode_weight rs data =
     (case rs of
        None \<Rightarrow> Inl NameError
      | Some f \<Rightarrow> (if f (sint (data ! 14)) = 0 then Inr None
                   else Inr (Some (be_int16 (data ! 10) (data ! 11) * 100))))"
  by (simp add: decode_weight_def slice_9_15)

text \<open>The 16-bit field of \<open>">h"\<close> is the signed value of the two bytes concatenated.\<close>

lemma be_int16_word_cat: "be_int16 hi lo = sint (word_cat hi lo :: 16 word)"
  using twos_uint_word [of "word_cat hi lo :: 16 word"]
  by (simp add: be_int16_def uint_word_cat_bytes)

text \<open>A weight the decoder reports is 100 times a signed 16-bit value.\<close>

lemma decode_weight_some_range:
  assumes "decode_weight rs data = Inr (Some g)"
  shows "g mod 100 = 0 \<and> - 3276800 \<le> g \<and> g \<le> 3276700"
proof -
  have long: "15 \<le> length data"
    using assms by (cases "length data < 15") (auto simp: decode_weight_def unpack_bhhb_error slice_short)
  then have "g = be_int16 (data ! 10) (data ! 11) * 100"
    using assms by (auto simp: decode_weight_long split: option.splits if_splits)
  then show ?thesis using be_int16_bounds [of "data ! 10" "data ! 11"] by simp
qed

lemma scale_payload_fields [simp]:
  "length (scale_payload w c) = 15"
  "scale_payload w c ! 10 = word_of_int (w div 256)"
  "scale_payload w c ! 11 = word_of_int w"
  "scale_payload w c ! 14 = c"
  by (simp_all add: scale_payload_def nth_append)

lemma be_int16_roundtrip:
  assumes "- 32768 \<le> w" "w \<le> 32767"
  shows "be_int16 (word_of_int (w div 256)) (word_of_int w) = w"
proof -
  have "uint (word_of_int (w div 256) :: byte) * 256 + uint (word_of_int w :: byte) = w mod 65536"
    using mod_mult2_eq' [of w 256 256] by simp
  moreover have "twos 16 (w mod 65536) = w"
  proof (cases "0 \<le> w")
    case True
    with assms show ?thesis by (simp add: twos_def)
  next
    case False
    have "w mod 65536 = (w + 65536) mod 65536" by simp
    also have "\<dots> = w + 65536" using assms False by (intro mod_pos_pos_trivial) arith+
    finally have "w mod 65536 = w + 65536" .
    with assms show ?thesis by (simp add: twos_def)
  qed
  ultimately show ?thesis by (simp add: be_int16_def)
qed

subsection \<open>The decoder's contract\<close>

text \<open>
  C1. With the name \<open>read_stable\<close> bound to the function of lines 57--59, a payload of
  at least 15 bytes decodes to \<open>None\<close> when bit 7 or bit 5 of the control byte (offset
  14) is clear, and otherwise to 100 times the signed big-endian 16-bit value at offsets
  10--11.
\<close>

theorem decode_weight_functional:
  assumes "15 \<le> length data"
  shows "decode_weight (Some read_stable) data =
           (if stable_byte (data ! 14)
            then Inr (Some (be_int16 (data ! 10) (data ! 11) * 100))
            else Inr None)"
  using assms by (simp add: decode_weight_long read_stable_sint [symmetric])

theorem decode_weight_functional_witness:
  "15 \<le> length (scale_payload 5 0xA0) \<and>
   decode_weight (Some read_stable) (scale_payload 5 0xA0) =
     (if stable_byte (scale_payload 5 0xA0 ! 14)
      then Inr (Some (be_int16 (scale_payload 5 0xA0 ! 10) (scale_payload 5 0xA0 ! 11) * 100))
      else Inr None)"
proof -
  have h: "15 \<le> length (scale_payload 5 0xA0)" by (simp add: scale_payload_def)
  show ?thesis using h decode_weight_functional [OF h] by simp
qed

text \<open>
  C2. As written, \<open>decode_weight\<close> never returns: on every payload of at least 15 bytes
  the call \<open>read_stable(ctr1)\<close> at line 70 raises \<open>NameError\<close>, because
  \<open>read_stable\<close> is a class attribute and not a global name of \<open>sensor.py\<close>.
\<close>

theorem decode_weight_as_written:
  assumes "15 \<le> length data"
  shows "decode_weight sensor_globals_read_stable data = Inl NameError"
  using assms by (simp add: decode_weight_long sensor_globals_read_stable_def)

theorem decode_weight_as_written_witness:
  "15 \<le> length (scale_payload 5 0xA0) \<and>
   decode_weight sensor_globals_read_stable (scale_payload 5 0xA0) = Inl NameError"
proof -
  have h: "15 \<le> length (scale_payload 5 0xA0)" by (simp add: scale_payload_def)
  show ?thesis using h decode_weight_as_written [OF h] by simp
qed

text \<open>
  C3. A payload shorter than 15 bytes makes \<open>struct.unpack\<close> raise \<open>struct.error\<close>
  (the slice \<open>data[9:15]\<close> has fewer than 6 bytes), whatever \<open>read_stable\<close> is bound
  to: the decoder raises rather than returning \<open>None\<close>.
\<close>

theorem decode_weight_short:
  assumes "length data < 15"
  shows "decode_weight rs data = Inl StructError"
  using assms by (simp add: decode_weight_def unpack_bhhb_error slice_short)

theorem decode_weight_short_witness:
  "length [0, 0, 0 :: byte] < 15 \<and> decode_weight (Some read_stable) [0, 0, 0] = Inl StructError"
proof -
  have h: "length [0, 0, 0 :: byte] < 15" by simp
  show ?thesis using h decode_weight_short [OF h] by simp
qed

text \<open>
  C4. Every weight the decoder reports is a multiple of 100 grams between
  \<open>-3276800\<close> and \<open>3276700\<close>: the raw field is a signed 16-bit value.
\<close>

theorem decode_weight_bounds:
  assumes "decode_weight rs data = Inr (Some g)"
  shows "g mod 100 = 0 \<and> - 3276800 \<le> g \<and> g \<le> 3276700"
  using assms by (rule decode_weight_some_range)

theorem decode_weight_bounds_witness:
  "decode_weight (Some read_stable) (scale_payload 5 0xA0) = Inr (Some 500) \<and>
   500 mod 100 = (0 :: int) \<and> - 3276800 \<le> (500 :: int) \<and> (500 :: int) \<le> 3276700"
proof -
  have h: "decode_weight (Some read_stable) (scale_payload 5 0xA0) = Inr (Some 500)"
    by (simp add: decode_weight_def scale_payload_def py_slice_def be_int16_def
        read_stable_def twos_def)
  show ?thesis using h decode_weight_bounds [OF h] by simp
qed

text \<open>
  C5. \<open>read_stable\<close> applied to the signed control byte (format \<open>b\<close>) is 1 exactly
  when bits 7 and 5 of the raw byte are set, negative values included, and 0 otherwise.
\<close>

theorem read_stable_bits:
  "read_stable (sint (c :: byte)) = (if bit c 7 \<and> bit c 5 then 1 else 0)"
  by (simp add: read_stable_def py_int_of_bool_def and_160_eq_160_iff bit_sint_byte_low)

text \<open>
  C6. Round trip with the scale's payload layout: every signed 16-bit raw weight \<open>w\<close>
  sent with a stable control byte decodes to \<open>100 * w\<close> grams.
\<close>

theorem decode_scale_payload_roundtrip:
  assumes "- 32768 \<le> w" "w \<le> 32767"
  shows "decode_weight (Some read_stable) (scale_payload w 0xA0) = Inr (Some (w * 100))"
proof -
  have "15 \<le> length (scale_payload w 0xA0)" by (simp add: scale_payload_def)
  then show ?thesis
    using be_int16_roundtrip [OF assms]
    by (simp add: decode_weight_long read_stable_def py_int_of_bool_def)
qed

theorem decode_scale_payload_roundtrip_witness:
  "- 32768 \<le> (-7 :: int) \<and> (-7 :: int) \<le> 32767 \<and>
   decode_weight (Some read_stable) (scale_payload (-7) 0xA0) = Inr (Some (-700))"
proof -
  have h: "- 32768 \<le> (-7 :: int)" "(-7 :: int) \<le> 32767" by simp_all
  show ?thesis using h decode_scale_payload_roundtrip [OF h] by simp
qed

text \<open>
  C16. Equivalence with the word-level reference: with \<open>read_stable\<close> resolvable, the
  decoder's arithmetic on the unpacked signed integers (the mask on the signed control
  byte, \<open>weight_raw * 100\<close> on the two's complement field) computes exactly the
  reference decoder on the raw bytes, on every payload, exceptions included.
\<close>

theorem decode_weight_word_equiv:
  "decode_weight (Some read_stable) data = decode_weight_word data"
proof (cases "length data < 15")
  case True
  then show ?thesis
    by (simp add: decode_weight_def decode_weight_word_def unpack_bhhb_error slice_short)
next
  case False
  then show ?thesis
    by (simp add: decode_weight_long decode_weight_word_def read_stable_def
        and_160_eq_160_iff bit_sint_byte_low byte_and_160_eq_160_iff be_int16_word_cat)
qed

end
