(* ===== verification/Sensor.thy ===== *)
theory Sensor
  imports Decoder
begin

text \<open>
  The connection manager of \<open>src/sensor.py\<close>, class \<open>SenssunScaleSensor\<close>
  (lines 22--165), run by the asyncio event loop. The attributes the constructor sets
  (lines 23--35) are the record \<open>sensor\<close>; the record \<open>world\<close> extends it with what
  the event loop and the BLE transport hold: the connection state of each
  \<open>BleakClient\<close> created so far (\<open>links\<close>), the pending tasks with the point at which
  each is suspended (\<open>tasks\<close>), the pending \<open>call_later\<close> timers, the loop's clock and
  a counter for fresh object identities.

  Every coroutine of the class is cut at its \<open>await\<close>s: a handler runs from one
  suspension point to the next without interruption, as on asyncio's single thread,
  and a task records in \<open>pc\<close> where it is suspended. The events of
  \<open>event\<close> say what the loop does next: the host calls \<open>async_update\<close>,
  \<open>async_added_to_hass\<close> or \<open>async_will_remove_from_hass\<close>, a ready task runs, an awaited transport call
  completes with a result, a timer fires, the transport delivers a notification, the
  transport reports a link down (the device dropped it, or a disconnect request took
  effect), or a second passes. \<open>step\<close> is the deterministic effect of one
  event, \<open>None\<close> when the event is not enabled.
\<close>

subsection \<open>Transport and loop objects\<close>

text \<open>
  The state of one \<open>BleakClient\<close>: never connected or disconnected, connecting,
  connected, connected with notifications started. (Library code, modelled from the
  spec's transport interface.)
\<close>

datatype link = Link_Closed | Link_Opening | Link_Open | Link_Notifying

text \<open>How \<open>await asyncio.wait_for(self._client.connect(), timeout=20.0)\<close> ends.\<close>

datatype connect_result =
    Connected_Ok | Connect_Timeout | Connect_BleakError | Connect_OtherError

text \<open>Where a task of the sensor is suspended.\<close>

datatype pc =
    Start_Update         \<comment> \<open>the host's task for \<open>async_update\<close>, about to run\<close>
  | Wait_Lock            \<comment> \<open>in \<open>connect\<close>, blocked on \<open>_connect_lock\<close> (line 95)\<close>
  | Await_Connect nat    \<comment> \<open>awaiting \<open>wait_for(client.connect())\<close> (line 101)\<close>
  | Await_Notify nat     \<comment> \<open>awaiting \<open>client.start_notify\<close> (line 105)\<close>
  | Start_Retry          \<comment> \<open>\<open>_retry_connect\<close> created, not yet run (line 131)\<close>
  | Sleeping nat         \<comment> \<open>in \<open>asyncio.sleep\<close> until the given time (line 134)\<close>
  | Start_Disconnect     \<comment> \<open>\<open>_disconnect\<close> created, not yet run (line 139)\<close>
  | Await_Disconnect nat \<comment> \<open>awaiting \<open>client.disconnect()\<close> (line 143)\<close>

record task =
  pc :: pc
  cancelling :: bool

subsection \<open>The sensor object and its world\<close>

record sensor =
  address :: string
  state :: "int option"
  available :: bool
  attr_name :: string
  attr_unique_id :: string
  client :: "nat option"
  disconnect_timer :: "nat option"
  connect_lock :: "nat option"
  connection_retry_interval :: nat
  retry_task :: "nat option"

record world = sensor +
  links :: "nat \<Rightarrow> link"
  tasks :: "nat \<rightharpoonup> task"
  timers :: "nat \<rightharpoonup> nat"
  now :: nat
  next_id :: nat

text \<open>\<open>SenssunScaleSensor.__init__\<close> in a fresh loop.\<close>

definition sensor_init :: "string \<Rightarrow> world" where
  "sensor_init addr =
     \<lparr>address = addr, state = None, available = False,
      attr_name = ''Senssun Body Scale Weight'', attr_unique_id = ''ble_scale_'' @ addr,
      client = None,
      disconnect_timer = None, connect_lock = None, connection_retry_interval = 60,
      retry_task = None,
      links = (\<lambda>_. Link_Closed), tasks = Map.empty, timers = Map.empty, now = 0,
      next_id = 0\<rparr>"

subsection \<open>Runtime primitives\<close>

text \<open>\<open>BleakClient.is_connected\<close>.\<close>

definition is_connected :: "world \<Rightarrow> nat \<Rightarrow> bool" where
  "is_connected w h \<longleftrightarrow> links w h = Link_Open \<or> links w h = Link_Notifying"

text \<open>\<open>asyncio.create_task\<close>: a new task, suspended before its first line.\<close>

definition spawn :: "pc \<Rightarrow> world \<Rightarrow> nat \<times> world" where
  "spawn p w =
     (next_id w,
      w\<lparr>tasks := (tasks w)(next_id w \<mapsto> \<lparr>pc = p, cancelling = False\<rparr>),
        next_id := Suc (next_id w)\<rparr>)"

definition set_pc :: "nat \<Rightarrow> pc \<Rightarrow> world \<Rightarrow> world" where
  "set_pc t p w = w\<lparr>tasks := (tasks w)(t := map_option (\<lambda>tk. tk\<lparr>pc := p\<rparr>) (tasks w t))\<rparr>"

definition finish :: "nat \<Rightarrow> world \<Rightarrow> world" where
  "finish t w = w\<lparr>tasks := (tasks w)(t := None)\<rparr>"

text \<open>\<open>Task.cancel\<close>: a request, delivered as \<open>CancelledError\<close> when the task next runs;
  a finished task ignores it.\<close>

definition cancel_task :: "nat \<Rightarrow> world \<Rightarrow> world" where
  "cancel_task t w =
     w\<lparr>tasks := (tasks w)(t := map_option (\<lambda>tk. tk\<lparr>cancelling := True\<rparr>) (tasks w t))\<rparr>"

text \<open>\<open>loop.call_later(delay, self.disconnect)\<close> and \<open>TimerHandle.cancel\<close>.\<close>

definition call_later :: "nat \<Rightarrow> world \<Rightarrow> nat \<times> world" where
  "call_later delay w =
     (next_id w,
      w\<lparr>timers := (timers w)(next_id w \<mapsto> now w + delay), next_id := Suc (next_id w)\<rparr>)"

definition timer_cancel :: "nat \<Rightarrow> world \<Rightarrow> world" where
  "timer_cancel i w = w\<lparr>timers := (timers w)(i := None)\<rparr>"

subsection \<open>The methods of \<open>SenssunScaleSensor\<close>\<close>

text \<open>\<open>self._client and self._client.is_connected\<close> (lines 96, 138 and 164).\<close>

definition client_connected :: "world \<Rightarrow> bool" where
  "client_connected w = (case client w of None \<Rightarrow> False | Some h \<Rightarrow> is_connected w h)"

text \<open>\<open>_schedule_retry\<close> (lines 127--131).\<close>

definition schedule_retry :: "world \<Rightarrow> world" where
  "schedule_retry w =
     (let w1 = (case retry_task w of None \<Rightarrow> w | Some r \<Rightarrow> cancel_task r w);
          (r', w2) = spawn Start_Retry w1
      in w2\<lparr>retry_task := Some r'\<rparr>)"

text \<open>
  \<open>connect\<close> once task \<open>t\<close> holds \<open>_connect_lock\<close> (lines 96--101): return at once
  when the client is connected, else create a \<open>BleakClient\<close> and await its connection.
\<close>

definition connect_locked :: "nat \<Rightarrow> world \<Rightarrow> world" where
  "connect_locked t w =
     (if client_connected w then finish t (w\<lparr>connect_lock := None\<rparr>)
      else
        (let h = next_id w
         in set_pc t (Await_Connect h)
              (w\<lparr>client := Some h, links := (links w)(h := Link_Opening),
                 next_id := Suc h\<rparr>)))"

text \<open>
  \<open>async with self._connect_lock\<close> (line 95): take the lock if it is free, else wait.
  Waiters are not queued: when the lock is free any waiting task may take it
  (\<open>run_task\<close> on \<open>Wait_Lock\<close>), which includes the first-come order of asyncio.
\<close>

definition connect_enter :: "nat \<Rightarrow> world \<Rightarrow> world" where
  "connect_enter t w =
     (if connect_lock w = None then connect_locked t (w\<lparr>connect_lock := Some t\<rparr>)
      else set_pc t Wait_Lock w)"

text \<open>\<open>async_update\<close> (lines 162--165), run by task \<open>t\<close>.\<close>

definition async_update :: "nat \<Rightarrow> world \<Rightarrow> world" where
  "async_update t w = (if \<not> client_connected w then connect_enter t w else finish t w)"

text \<open>
  \<open>async_added_to_hass\<close> (lines 152--154), run by task \<open>t\<close>: it awaits
  \<open>async_update\<close> in the same task, which runs at once to its first suspension.
\<close>

definition async_added_to_hass :: "nat \<Rightarrow> world \<Rightarrow> world" where
  "async_added_to_hass t w = async_update t w"

text \<open>
  The three \<open>except\<close> clauses of \<open>connect\<close> (lines 114--125), which act alike, and the
  release of the lock when the \<open>async with\<close> block is left.
\<close>

definition connect_failed :: "nat \<Rightarrow> world \<Rightarrow> world" where
  "connect_failed t w = finish t ((schedule_retry (w\<lparr>available := False\<rparr>))\<lparr>connect_lock := None\<rparr>)"

text \<open>
  Resumption of \<open>connect\<close> after \<open>client.connect()\<close> (lines 101--105). On success,
  line 103 sets \<open>_available\<close> and line 105 calls \<open>start_notify\<close> on the client stored
  in \<open>self._client\<close> at that moment. A \<open>finally\<close> clause of \<open>_disconnect\<close> that ran
  while the connection was awaited has set it to \<open>None\<close>: the attribute lookup raises
  \<open>AttributeError\<close>, caught by \<open>except Exception\<close> (line 122), and the link just
  opened stays open.
\<close>

definition connect_resumed :: "nat \<Rightarrow> nat \<Rightarrow> connect_result \<Rightarrow> world \<Rightarrow> world" where
  "connect_resumed t h r w =
     (case r of
        Connected_Ok \<Rightarrow>
          (let w1 = w\<lparr>links := (links w)(h := Link_Open), available := True\<rparr>
           in case client w1 of
                None \<Rightarrow> connect_failed t w1
              | Some c \<Rightarrow> set_pc t (Await_Notify c) w1)
      | _ \<Rightarrow> connect_failed t (w\<lparr>links := (links w)(h := Link_Closed)\<rparr>))"

text \<open>
  Resumption after \<open>start_notify\<close> (lines 105--112) on the client \<open>h\<close> it was called
  on: on success, arm the disconnect timer without cancelling the one already stored;
  on failure, the \<open>except\<close> clauses.
\<close>

definition notify_resumed :: "nat \<Rightarrow> nat \<Rightarrow> bool \<Rightarrow> world \<Rightarrow> world" where
  "notify_resumed t h ok w =
     (if ok then
        (let (i, w1) = call_later 60 (w\<lparr>links := (links w)(h := Link_Notifying)\<rparr>)
         in finish t (w1\<lparr>disconnect_timer := Some i, connect_lock := None\<rparr>))
      else connect_failed t w)"

text \<open>\<open>_retry_connect\<close> (lines 133--135): sleep, then \<open>async_update\<close>.\<close>

definition retry_started :: "nat \<Rightarrow> world \<Rightarrow> world" where
  "retry_started t w = set_pc t (Sleeping (now w + connection_retry_interval w)) w"

text \<open>\<open>disconnect\<close> (lines 137--139), the callback of the disconnect timer.\<close>

definition disconnect :: "world \<Rightarrow> world" where
  "disconnect w = (if client_connected w then snd (spawn Start_Disconnect w) else w)"

text \<open>The \<open>finally\<close> clause of \<open>_disconnect\<close> (lines 147--150).\<close>

definition disconnect_finally :: "nat \<Rightarrow> world \<Rightarrow> world" where
  "disconnect_finally t w = finish t (w\<lparr>client := None, available := False\<rparr>)"

text \<open>
  \<open>_disconnect\<close> up to its \<open>await\<close> (line 143): with no client,
  \<open>self._client.disconnect\<close> raises \<open>AttributeError\<close>, which the \<open>except\<close> clause
  swallows before the \<open>finally\<close> clause runs.
\<close>

definition disconnect_begin :: "nat \<Rightarrow> world \<Rightarrow> world" where
  "disconnect_begin t w =
     (case client w of
        None \<Rightarrow> disconnect_finally t w
      | Some h \<Rightarrow> set_pc t (Await_Disconnect h) w)"

text \<open>
  \<open>async_will_remove_from_hass\<close> (lines 156--160): cancel the retry task, then run
  \<open>_disconnect\<close> in the host's removal task.
\<close>

definition will_remove :: "world \<Rightarrow> world" where
  "will_remove w =
     (let w1 = (case retry_task w of None \<Rightarrow> w | Some r \<Rightarrow> cancel_task r w);
          (t, w2) = spawn Start_Disconnect w1
      in disconnect_begin t w2)"

text \<open>\<open>round(weight, 1)\<close> (line 84): \<open>TypeError\<close> on \<open>None\<close>, an integer unchanged.\<close>

definition py_round :: "int option \<Rightarrow> py_error + int" where
  "py_round x = (case x of None \<Rightarrow> Inl TypeError | Some v \<Rightarrow> Inr v)"

text \<open>
  \<open>notification_handler\<close> (lines 81--92). An exception leaves the state as it was: no
  attribute is written before the two calls that can raise.
\<close>

definition notification_handler ::
  "(int \<Rightarrow> int) option \<Rightarrow> bytes \<Rightarrow> world \<Rightarrow> py_error + world" where
  "notification_handler rs data w =
     (case decode_weight rs data of
        Inl e \<Rightarrow> Inl e
      | Inr weight \<Rightarrow>
          (case py_round weight of
             Inl e \<Rightarrow> Inl e
           | Inr v \<Rightarrow>
               (let w1 = w\<lparr>state := Some v, available := True\<rparr>;
                    w2 = (case disconnect_timer w1 of None \<Rightarrow> w1 | Some i \<Rightarrow> timer_cancel i w1);
                    (i', w3) = call_later 60 w2
                in Inr (w3\<lparr>disconnect_timer := Some i'\<rparr>))))"

text \<open>
  A \<open>CancelledError\<close> delivered where task \<open>t\<close> is suspended. It is no
  \<open>Exception\<close>, so the \<open>except\<close> clauses of \<open>connect\<close> and \<open>_disconnect\<close> let it
  pass; \<open>async with\<close> releases the lock (line 95), \<open>wait_for\<close> abandons the connection
  attempt (line 101), and the \<open>finally\<close> clause of \<open>_disconnect\<close> runs (line 147).
\<close>

definition task_cancelled :: "nat \<Rightarrow> pc \<Rightarrow> world \<Rightarrow> world" where
  "task_cancelled t p w =
     (case p of
        Await_Connect h \<Rightarrow> finish t (w\<lparr>links := (links w)(h := Link_Closed), connect_lock := None\<rparr>)
      | Await_Notify h \<Rightarrow> finish t (w\<lparr>connect_lock := None\<rparr>)
      | Await_Disconnect h \<Rightarrow> disconnect_finally t w
      | _ \<Rightarrow> finish t w)"

subsection \<open>The event loop\<close>

datatype event =
    Host_Update
  | Host_Added
  | Host_Remove
  | Run nat
  | Connect_Done nat connect_result
  | Notify_Done nat bool
  | Disconnect_Done nat bool
  | Fire nat
  | Notification nat bytes
  | Link_Down nat
  | Tick

text \<open>A ready task resumes at its suspension point.\<close>

definition run_task :: "nat \<Rightarrow> task \<Rightarrow> world \<Rightarrow> world option" where
  "run_task t tk w =
     (if cancelling tk then Some (task_cancelled t (pc tk) w)
      else
        (case pc tk of
           Start_Update \<Rightarrow> Some (async_update t w)
         | Wait_Lock \<Rightarrow>
             (if connect_lock w = None then Some (connect_locked t (w\<lparr>connect_lock := Some t\<rparr>))
              else None)
         | Start_Retry \<Rightarrow> Some (retry_started t w)
         | Sleeping d \<Rightarrow> (if d \<le> now w then Some (async_update t w) else None)
         | Start_Disconnect \<Rightarrow> Some (disconnect_begin t w)
         | _ \<Rightarrow> None))"

text \<open>
  An awaited transport call of a task that is not being cancelled completes. When
  \<open>client.disconnect()\<close> returns or raises, \<open>_disconnect\<close> resumes in its \<open>finally\<close>
  clause (lines 143--150); the link itself is closed by the transport (event
  \<open>Link_Down\<close>), and a successful call returns only once the link is down.
\<close>

definition await_done :: "nat \<Rightarrow> world \<Rightarrow> (pc \<Rightarrow> world option) \<Rightarrow> world option" where
  "await_done t w k =
     (case tasks w t of
        None \<Rightarrow> None
      | Some tk \<Rightarrow> (if cancelling tk then None else k (pc tk)))"

fun step :: "(int \<Rightarrow> int) option \<Rightarrow> world \<Rightarrow> event \<Rightarrow> world option" where
  "step rs w Host_Update = (let (t, w1) = spawn Start_Update w in Some (async_update t w1))"
| "step rs w Host_Added = (let (t, w1) = spawn Start_Update w in Some (async_added_to_hass t w1))"
| "step rs w Host_Remove = Some (will_remove w)"
| "step rs w (Run t) = (case tasks w t of None \<Rightarrow> None | Some tk \<Rightarrow> run_task t tk w)"
| "step rs w (Connect_Done t r) =
     await_done t w (\<lambda>p. case p of Await_Connect h \<Rightarrow> Some (connect_resumed t h r w) | _ \<Rightarrow> None)"
| "step rs w (Notify_Done t ok) =
     await_done t w (\<lambda>p. case p of Await_Notify h \<Rightarrow> Some (notify_resumed t h ok w) | _ \<Rightarrow> None)"
| "step rs w (Disconnect_Done t ok) =
     await_done t w
       (\<lambda>p. case p of
              Await_Disconnect h \<Rightarrow>
                (if ok \<and> is_connected w h then None else Some (disconnect_finally t w))
            | _ \<Rightarrow> None)"
| "step rs w (Fire i) =
     (case timers w i of
        None \<Rightarrow> None
      | Some d \<Rightarrow> (if d \<le> now w then Some (disconnect (w\<lparr>timers := (timers w)(i := None)\<rparr>))
                   else None))"
| "step rs w (Notification h data) =
     (if links w h = Link_Notifying
      then Some (case notification_handler rs data w of Inl _ \<Rightarrow> w | Inr w' \<Rightarrow> w')
      else None)"
| "step rs w (Link_Down h) =
     (if is_connected w h then Some (w\<lparr>links := (links w)(h := Link_Closed)\<rparr>) else None)"
| "step rs w Tick = Some (w\<lparr>now := Suc (now w)\<rparr>)"

text \<open>A run of the loop over a list of events; \<open>None\<close> when one is not enabled.\<close>

fun run :: "(int \<Rightarrow> int) option \<Rightarrow> world \<Rightarrow> event list \<Rightarrow> world option" where
  "run rs w [] = Some w"
| "run rs w (e # es) = (case step rs w e of None \<Rightarrow> None | Some w' \<Rightarrow> run rs w' es)"

text \<open>The states the loop reaches from a freshly constructed sensor.\<close>

inductive reach :: "(int \<Rightarrow> int) option \<Rightarrow> string \<Rightarrow> world \<Rightarrow> bool" where
  reach_init: "reach rs a (sensor_init a)"
| reach_step: "reach rs a w \<Longrightarrow> step rs w e = Some w' \<Longrightarrow> reach rs a w'"

text \<open>The definitions of the handlers and runtime primitives, for unfolding together.\<close>

lemmas sensor_defs = sensor_init_def is_connected_def spawn_def set_pc_def finish_def
  cancel_task_def call_later_def timer_cancel_def client_connected_def schedule_retry_def
  connect_locked_def connect_enter_def async_update_def async_added_to_hass_def connect_failed_def connect_resumed_def
  notify_resumed_def retry_started_def disconnect_def disconnect_finally_def
  disconnect_begin_def will_remove_def py_round_def notification_handler_def
  task_cancelled_def run_task_def await_done_def Let_def

text \<open>A run reaches only reachable states.\<close>

lemma run_reach: "run rs w es = Some w' \<Longrightarrow> reach rs a w \<Longrightarrow> reach rs a w'"
proof (induction es arbitrary: w)
  case Nil
  then show ?case by simp
next
  case (Cons e es)
  then obtain w1 where w1: "step rs w e = Some w1" and rest: "run rs w1 es = Some w'"
    by (auto split: option.splits)
  from Cons.prems(2) w1 have "reach rs a w1" by (rule reach_step)
  with rest show ?case by (rule Cons.IH)
qed

lemma run_append:
  "run rs w (es @ fs) = (case run rs w es of None \<Rightarrow> None | Some w' \<Rightarrow> run rs w' fs)"
  by (induction es arbitrary: w) (auto split: option.splits)

end
