(* ===== verification/Sensor_Invariants.thy ===== *)
theory Sensor_Invariants
  imports Sensor
begin

text \<open>
  The invariant of the connection manager that every event of the loop keeps:
  \<^item> \<open>fresh_inv\<close>: object identities at or above \<open>next_id\<close> are unused, so a task,
    timer or client created next is new;
  \<^item> \<open>lock_inv\<close>: \<open>_connect_lock\<close> is held exactly by the tasks suspended inside the
    \<open>async with\<close> block of \<open>connect\<close> (lines 95--112);
  \<^item> \<open>opening_inv\<close>: a \<open>BleakClient\<close> is connecting exactly when it is the one the
    lock holder awaits (line 101);
  \<^item> \<open>retry_inv\<close>: every \<open>_retry_connect\<close> task that is not being cancelled is the
    one stored in \<open>_retry_task\<close> (lines 128--131).
  It holds in every reachable state (\<open>reach_inv\<close>); the safety theorems follow from it:
  at most one task runs the connect sequence, at most one BLE connection attempt is in
  flight, and at most one retry is pending.
\<close>

fun in_connect :: "pc \<Rightarrow> bool" where
  "in_connect (Await_Connect _) = True"
| "in_connect (Await_Notify _) = True"
| "in_connect _ = False"

fun pc_connecting :: "pc \<Rightarrow> nat option" where
  "pc_connecting (Await_Connect h) = Some h"
| "pc_connecting _ = None"

fun is_retry_pc :: "pc \<Rightarrow> bool" where
  "is_retry_pc Start_Retry = True"
| "is_retry_pc (Sleeping _) = True"
| "is_retry_pc _ = False"

text \<open>The client the holder of the lock is connecting, if any.\<close>

definition connecting_of :: "nat option \<Rightarrow> (nat \<rightharpoonup> task) \<Rightarrow> nat option" where
  "connecting_of l m =
     (case l of None \<Rightarrow> None
      | Some t \<Rightarrow> (case m t of None \<Rightarrow> None | Some tk \<Rightarrow> pc_connecting (pc tk)))"

definition fresh_inv :: "world \<Rightarrow> bool" where
  "fresh_inv w \<longleftrightarrow> (\<forall>n. next_id w \<le> n \<longrightarrow> tasks w n = None)
     \<and> (\<forall>t. connect_lock w = Some t \<longrightarrow> t < next_id w)"

definition lock_inv :: "world \<Rightarrow> bool" where
  "lock_inv w \<longleftrightarrow> with_prop (\<lambda>tk. in_connect (pc tk)) (tasks w) = set_option (connect_lock w)"

definition opening_inv :: "world \<Rightarrow> bool" where
  "opening_inv w \<longleftrightarrow>
     keys_with (links w) Link_Opening = set_option (connecting_of (connect_lock w) (tasks w))"

definition retry_inv :: "world \<Rightarrow> bool" where
  "retry_inv w \<longleftrightarrow>
     with_prop (\<lambda>tk. is_retry_pc (pc tk) \<and> \<not> cancelling tk) (tasks w) \<subseteq> set_option (retry_task w)"

definition inv :: "world \<Rightarrow> bool" where
  "inv w \<longleftrightarrow> fresh_inv w \<and> lock_inv w \<and> opening_inv w \<and> retry_inv w"

lemmas invs = inv_def fresh_inv_def lock_inv_def opening_inv_def retry_inv_def

lemmas inv_dests = with_prop_eq_memD with_prop_eq_nmemD with_prop_subsetD fresh_keyD

subsection \<open>Facts about suspension points\<close>

lemma pc_connecting_in_connect: "pc_connecting p = Some h \<Longrightarrow> in_connect p"
  by (cases p) auto

lemma not_in_connect_pc_connecting [simp]: "\<not> in_connect p \<Longrightarrow> pc_connecting p = None"
  by (cases p) auto

lemma in_connect_not_retry [simp]: "in_connect p \<Longrightarrow> \<not> is_retry_pc p"
  by (cases p) auto

lemma connecting_of_None [simp]: "connecting_of None m = None"
  by (simp add: connecting_of_def)

lemma connecting_of_Some [simp]:
  "connecting_of (Some t) m = (case m t of None \<Rightarrow> None | Some tk \<Rightarrow> pc_connecting (pc tk))"
  by (simp add: connecting_of_def)

lemma connecting_of_upd [simp]:
  "connecting_of l (m(k := v)) =
     (if l = Some k then (case v of None \<Rightarrow> None | Some tk \<Rightarrow> pc_connecting (pc tk))
      else connecting_of l m)"
  by (cases l) auto

lemma lock_inv_holder:
  "lock_inv w \<Longrightarrow> connect_lock w = Some t \<Longrightarrow> \<exists>tk. tasks w t = Some tk \<and> in_connect (pc tk)"
  unfolding lock_inv_def by (metis insertI1 mem_with_prop option.set(2))

lemma lock_inv_in_connect:
  assumes "lock_inv w" "tasks w t = Some tk" "in_connect (pc tk)"
  shows "connect_lock w = Some t"
proof -
  from assms have "t \<in> set_option (connect_lock w)"
    unfolding lock_inv_def by (blast dest: with_prop_eq_memD)
  then show ?thesis by (cases "connect_lock w") auto
qed

subsection \<open>The runtime primitives and \<open>_schedule_retry\<close>\<close>

lemma inv_init: "inv (sensor_init a)"
  by (simp add: invs sensor_init_def)

lemma inv_spawn:
  "inv w \<Longrightarrow> \<not> in_connect p \<Longrightarrow> \<not> is_retry_pc p \<Longrightarrow> inv (snd (spawn p w))"
  unfolding invs
  by (clarsimp simp: sensor_defs split: option.splits; auto simp: not_le dest: inv_dests)

lemma schedule_retry_fields [simp]:
  "connect_lock (schedule_retry w) = connect_lock w"
  "links (schedule_retry w) = links w"
  "next_id (schedule_retry w) = Suc (next_id w)"
  "retry_task (schedule_retry w) = Some (next_id w)"
  by (simp_all add: schedule_retry_def spawn_def cancel_task_def Let_def split: option.splits)

lemma fresh_inv_schedule_retry: "fresh_inv w \<Longrightarrow> fresh_inv (schedule_retry w)"
  unfolding fresh_inv_def
  by (auto simp: schedule_retry_def spawn_def cancel_task_def Let_def split: option.splits)

lemma lock_inv_schedule_retry: "fresh_inv w \<Longrightarrow> lock_inv w \<Longrightarrow> lock_inv (schedule_retry w)"
  using lock_inv_in_connect [of w] unfolding fresh_inv_def lock_inv_def
  by (clarsimp simp: schedule_retry_def spawn_def cancel_task_def Let_def split: option.splits; auto)

lemma retry_inv_schedule_retry: "fresh_inv w \<Longrightarrow> retry_inv w \<Longrightarrow> retry_inv (schedule_retry w)"
  unfolding fresh_inv_def retry_inv_def
  by (clarsimp simp: schedule_retry_def spawn_def cancel_task_def Let_def split: option.splits;
      auto simp: mem_with_prop dest: with_prop_subsetD)

text \<open>Leaving the \<open>async with\<close> block of \<open>connect\<close> with no connection attempt open.\<close>

lemma release_inv:
  assumes "fresh_inv w" "lock_inv w" "retry_inv w" "connect_lock w = Some t"
    "keys_with (links w) Link_Opening = {}"
  shows "inv (finish t (w\<lparr>connect_lock := None\<rparr>))"
  using assms lock_inv_holder [OF assms(2,4)] unfolding invs
  by (clarsimp simp: finish_def; auto simp: mem_with_prop dest: inv_dests)

subsection \<open>Each method keeps the invariant\<close>

lemma inv_connect_failed:
  assumes "fresh_inv w" "lock_inv w" "retry_inv w" "connect_lock w = Some t"
    "keys_with (links w) Link_Opening = {}"
  shows "inv (connect_failed t w)"
proof -
  let ?w0 = "w\<lparr>available := False\<rparr>"
  have "fresh_inv ?w0" "lock_inv ?w0" "retry_inv ?w0"
    using assms(1-3) by (simp_all add: fresh_inv_def lock_inv_def retry_inv_def)
  then have "fresh_inv (schedule_retry ?w0)" "lock_inv (schedule_retry ?w0)"
    "retry_inv (schedule_retry ?w0)"
    by (simp_all add: fresh_inv_schedule_retry lock_inv_schedule_retry retry_inv_schedule_retry)
  moreover have "connect_lock (schedule_retry ?w0) = Some t"
    "keys_with (links (schedule_retry ?w0)) Link_Opening = {}"
    using assms(4,5) by simp_all
  ultimately show ?thesis unfolding connect_failed_def by (rule release_inv)
qed

lemma inv_connect_locked:
  "inv w \<Longrightarrow> connect_lock w = None \<Longrightarrow> tasks w t = Some tk \<Longrightarrow>
   inv (connect_locked t (w\<lparr>connect_lock := Some t\<rparr>))"
  unfolding invs
  by (clarsimp simp: sensor_defs split: option.splits; auto simp: not_le mem_with_prop dest: inv_dests)

lemma inv_async_update:
  "inv w \<Longrightarrow> tasks w t = Some tk \<Longrightarrow> \<not> in_connect (pc tk) \<Longrightarrow> inv (async_update t w)"
  unfolding invs
  by (clarsimp simp: sensor_defs split: option.splits;
      auto simp: not_le mem_with_prop dest: inv_dests pc_connecting_in_connect)

lemma inv_connect_resumed:
  assumes "inv w" "tasks w t = Some tk" "pc tk = Await_Connect h"
  shows "inv (connect_resumed t h r w)"
proof -
  from assms have lock: "connect_lock w = Some t"
    by (auto simp: inv_def intro: lock_inv_in_connect)
  with assms have op_h: "keys_with (links w) Link_Opening = {h}"
    by (simp add: invs)
  show ?thesis
  proof (cases "r = Connected_Ok")
    case True
    let ?w1 = "w\<lparr>links := (links w)(h := Link_Open), available := True\<rparr>"
    show ?thesis
    proof (cases "client w")
      case None
      have "inv (connect_failed t ?w1)"
        using assms lock op_h by (intro inv_connect_failed) (auto simp: invs)
      with True None show ?thesis by (simp add: connect_resumed_def)
    next
      case (Some c)
      with True assms lock op_h show ?thesis unfolding invs
        by (clarsimp simp: sensor_defs; auto simp: mem_with_prop dest: inv_dests)
    qed
  next
    case False
    let ?w1 = "w\<lparr>links := (links w)(h := Link_Closed)\<rparr>"
    have "inv (connect_failed t ?w1)"
      using assms lock op_h by (intro inv_connect_failed) (auto simp: invs)
    with False show ?thesis by (cases r) (simp_all add: connect_resumed_def)
  qed
qed

lemma inv_notify_resumed:
  assumes "inv w" "tasks w t = Some tk" "pc tk = Await_Notify h"
  shows "inv (notify_resumed t h ok w)"
proof -
  from assms have lock: "connect_lock w = Some t"
    by (auto simp: inv_def intro: lock_inv_in_connect)
  with assms have op_h: "keys_with (links w) Link_Opening = {}"
    by (simp add: invs)
  show ?thesis
  proof (cases ok)
    case True
    then have "notify_resumed t h ok w =
      finish t ((w\<lparr>links := (links w)(h := Link_Notifying),
                    timers := (timers w)(next_id w \<mapsto> now w + 60),
                    next_id := Suc (next_id w), disconnect_timer := Some (next_id w)\<rparr>)
                 \<lparr>connect_lock := None\<rparr>)"
      by (simp add: notify_resumed_def call_later_def)
    moreover have "inv \<dots>"
      using assms lock op_h by (intro release_inv) (auto simp: invs)
    ultimately show ?thesis by simp
  next
    case False
    have "inv (connect_failed t w)"
      using assms lock op_h by (intro inv_connect_failed) (auto simp: inv_def)
    with False show ?thesis by (simp add: notify_resumed_def)
  qed
qed

lemma inv_retry_started:
  "inv w \<Longrightarrow> tasks w t = Some tk \<Longrightarrow> pc tk = Start_Retry \<Longrightarrow> \<not> cancelling tk \<Longrightarrow>
   inv (retry_started t w)"
  unfolding invs
  by (clarsimp simp: sensor_defs split: option.splits; auto simp: mem_with_prop dest: inv_dests)

lemma inv_disconnect: "inv w \<Longrightarrow> inv (disconnect w)"
  unfolding invs
  by (clarsimp simp: sensor_defs split: option.splits; auto simp: not_le dest: inv_dests)

lemma inv_disconnect_finally:
  "inv w \<Longrightarrow> tasks w t = Some tk \<Longrightarrow> \<not> in_connect (pc tk) \<Longrightarrow> inv (disconnect_finally t w)"
  unfolding invs
  by (clarsimp simp: sensor_defs split: option.splits; auto simp: mem_with_prop dest: inv_dests)

lemma inv_disconnect_begin:
  "inv w \<Longrightarrow> tasks w t = Some tk \<Longrightarrow> pc tk = Start_Disconnect \<Longrightarrow> inv (disconnect_begin t w)"
  unfolding invs
  by (clarsimp simp: sensor_defs split: option.splits; auto simp: mem_with_prop dest: inv_dests)

lemma inv_will_remove: "inv w \<Longrightarrow> inv (will_remove w)"
  unfolding invs
  by (clarsimp simp: sensor_defs split: option.splits; auto simp: not_le mem_with_prop dest: inv_dests)

lemma inv_task_cancelled:
  "inv w \<Longrightarrow> tasks w t = Some tk \<Longrightarrow> inv (task_cancelled t (pc tk) w)"
  unfolding invs
  by (clarsimp simp: sensor_defs split: option.splits pc.splits;
      auto simp: mem_with_prop dest: inv_dests pc_connecting_in_connect)

lemma inv_notification_handler:
  "inv w \<Longrightarrow> notification_handler rs d w = Inr w' \<Longrightarrow> inv w'"
  unfolding invs
  by (clarsimp simp: sensor_defs split: option.splits sum.splits; auto simp: not_le dest: inv_dests)

lemma inv_timers_update [simp]: "inv (w\<lparr>timers := x\<rparr>) = inv w"
  by (simp add: invs)

lemma inv_now_update [simp]: "inv (w\<lparr>now := x\<rparr>) = inv w"
  by (simp add: invs)

lemma inv_link_down:
  "inv w \<Longrightarrow> links w h \<noteq> Link_Opening \<Longrightarrow> inv (w\<lparr>links := (links w)(h := Link_Closed)\<rparr>)"
  by (simp add: invs)

lemma inv_run_task:
  assumes "inv w" "tasks w t = Some tk" "run_task t tk w = Some w'"
  shows "inv w'"
proof (cases "cancelling tk")
  case True
  with assms show ?thesis by (auto simp: run_task_def intro: inv_task_cancelled)
next
  case False
  with assms show ?thesis
    by (cases "pc tk")
       (auto simp: run_task_def split: if_splits
             intro: inv_async_update inv_connect_locked inv_retry_started inv_disconnect_begin)
qed

subsection \<open>Every reachable state satisfies the invariant\<close>

lemma inv_update_task: "inv w \<Longrightarrow> inv (async_update (next_id w) (snd (spawn Start_Update w)))"
proof -
  assume "inv w"
  then have "inv (snd (spawn Start_Update w))" by (rule inv_spawn) simp_all
  moreover have "tasks (snd (spawn Start_Update w)) (next_id w) =
                   Some \<lparr>pc = Start_Update, cancelling = False\<rparr>"
    by (simp add: spawn_def)
  ultimately show ?thesis by (rule inv_async_update) simp
qed

lemma inv_step:
  assumes "inv w" "step rs w e = Some w'"
  shows "inv w'"
proof (cases e)
  case Host_Update
  with assms show ?thesis using inv_update_task [OF assms(1)] by (simp add: spawn_def)
next
  case Host_Added
  with assms show ?thesis
    using inv_update_task [OF assms(1)] by (simp add: spawn_def async_added_to_hass_def)
next
  case Host_Remove
  with assms show ?thesis by (auto intro: inv_will_remove)
next
  case (Run t)
  with assms show ?thesis by (auto split: option.splits intro: inv_run_task)
next
  case (Connect_Done t r)
  with assms show ?thesis
    by (auto simp: await_done_def split: option.splits if_splits pc.splits
             intro: inv_connect_resumed)
next
  case (Notify_Done t ok)
  with assms show ?thesis
    by (auto simp: await_done_def split: option.splits if_splits pc.splits
             intro: inv_notify_resumed)
next
  case (Disconnect_Done t ok)
  with assms show ?thesis
    by (auto simp: await_done_def split: option.splits if_splits pc.splits
             intro: inv_disconnect_finally)
next
  case (Fire i)
  with assms show ?thesis by (auto split: option.splits if_splits intro: inv_disconnect)
next
  case (Notification h d)
  with assms show ?thesis
    by (auto split: if_splits sum.splits intro: inv_notification_handler)
next
  case (Link_Down h)
  with assms show ?thesis
    by (auto simp: is_connected_def split: if_splits intro: inv_link_down)
next
  case Tick
  with assms show ?thesis by auto
qed

theorem reach_inv: "reach rs a w \<Longrightarrow> inv w"
proof (induction rule: reach.induct)
  case reach_init
  show ?case by (rule inv_init)
next
  case (reach_step w e w')
  then show ?case by (blast intro: inv_step)
qed

subsection \<open>The invariant is inductive\<close>

text \<open>
  C17. The invariant is inductive for whole runs of the loop: from any state where the
  four conditions hold (reachable or not), every run of events keeps them, whatever the
  binding of \<open>read_stable\<close> and whatever the transport answers.
\<close>

theorem inv_run:
  assumes "inv w" "run rs w es = Some w'"
  shows "inv w'"
  using assms
proof (induction es arbitrary: w)
  case Nil
  then show ?case by simp
next
  case (Cons e es)
  then obtain w1 where w1: "step rs w e = Some w1" and rest: "run rs w1 es = Some w'"
    by (auto split: option.splits)
  from Cons.prems(1) w1 have "inv w1" by (rule inv_step)
  then show ?case using rest by (rule Cons.IH)
qed

theorem inv_run_witness:
  "inv (sensor_init ''A'') \<and>
   run sensor_globals_read_stable (sensor_init ''A'')
       [Host_Update, Host_Update, Connect_Done 0 Connect_Timeout] =
     Some (the (run sensor_globals_read_stable (sensor_init ''A'')
       [Host_Update, Host_Update, Connect_Done 0 Connect_Timeout])) \<and>
   inv (the (run sensor_globals_read_stable (sensor_init ''A'')
       [Host_Update, Host_Update, Connect_Done 0 Connect_Timeout]))"
proof -
  define w' where "w' = the (run sensor_globals_read_stable (sensor_init ''A'')
       [Host_Update, Host_Update, Connect_Done 0 Connect_Timeout])"
  have i: "inv (sensor_init ''A'')" by (rule inv_init)
  have r: "run sensor_globals_read_stable (sensor_init ''A'')
       [Host_Update, Host_Update, Connect_Done 0 Connect_Timeout] = Some w'"
    by (simp add: w'_def sensor_defs)
  have "inv w'" by (rule inv_run [OF i r])
  then show ?thesis unfolding w'_def [symmetric] using i r by (intro conjI)
qed

subsection \<open>Safety of the connect sequence and of the retries\<close>

text \<open>
  C7. In every reachable state at most one task is inside the connect sequence of
  \<open>connect\<close> (awaiting \<open>client.connect()\<close> or \<open>start_notify\<close>): \<open>_connect_lock\<close>
  serialises concurrent callers of \<open>async_update\<close>.
\<close>

theorem connect_exclusive:
  assumes "reach rs a w" "tasks w t1 = Some tk1" "tasks w t2 = Some tk2"
    "in_connect (pc tk1)" "in_connect (pc tk2)"
  shows "t1 = t2"
proof -
  from assms(1) have lock: "lock_inv w" by (simp add: reach_inv [unfolded inv_def])
  have "connect_lock w = Some t1" using lock assms(2,4) by (rule lock_inv_in_connect)
  moreover have "connect_lock w = Some t2" using lock assms(3,5) by (rule lock_inv_in_connect)
  ultimately show ?thesis by simp
qed

theorem connect_exclusive_witness:
  "let w = the (run sensor_globals_read_stable (sensor_init ''A'') [Host_Update, Host_Update])
   in reach sensor_globals_read_stable ''A'' w \<and>
      tasks w 0 = Some \<lparr>pc = Await_Connect 1, cancelling = False\<rparr> \<and>
      tasks w 2 = Some \<lparr>pc = Wait_Lock, cancelling = False\<rparr> \<and>
      (\<forall>t tk. tasks w t = Some tk \<and> in_connect (pc tk) \<longrightarrow> t = 0)"
proof -
  define w where "w = the (run sensor_globals_read_stable (sensor_init ''A'') [Host_Update, Host_Update])"
  have run: "run sensor_globals_read_stable (sensor_init ''A'') [Host_Update, Host_Update] = Some w"
    by (simp add: w_def sensor_defs)
  then have r: "reach sensor_globals_read_stable ''A'' w" by (rule run_reach) (rule reach_init)
  have t0: "tasks w 0 = Some \<lparr>pc = Await_Connect 1, cancelling = False\<rparr>"
    and t2: "tasks w 2 = Some \<lparr>pc = Wait_Lock, cancelling = False\<rparr>"
    by (simp_all add: w_def sensor_defs)
  have c0: "in_connect (pc \<lparr>pc = Await_Connect 1, cancelling = False\<rparr>)" by simp
  have "\<forall>t tk. tasks w t = Some tk \<and> in_connect (pc tk) \<longrightarrow> t = 0"
  proof (intro allI impI)
    fix t tk assume "tasks w t = Some tk \<and> in_connect (pc tk)"
    then show "t = 0" using connect_exclusive [OF r _ t0 _ c0, of t tk] by simp
  qed
  then show ?thesis unfolding Let_def w_def [symmetric] using r t0 t2 by (intro conjI)
qed

text \<open>
  C8. In every reachable state at most one \<open>BleakClient\<close> is connecting: the sensor
  never has two BLE connection attempts in flight.
\<close>

theorem single_connection_attempt:
  assumes "reach rs a w" "links w h1 = Link_Opening" "links w h2 = Link_Opening"
  shows "h1 = h2"
proof -
  from assms(1) have "opening_inv w" by (simp add: reach_inv [unfolded inv_def])
  then have eq: "keys_with (links w) Link_Opening = set_option (connecting_of (connect_lock w) (tasks w))"
    by (simp add: opening_inv_def)
  have "h1 \<in> set_option (connecting_of (connect_lock w) (tasks w))"
    "h2 \<in> set_option (connecting_of (connect_lock w) (tasks w))"
    using assms(2,3) by (simp_all add: eq [symmetric])
  then show ?thesis by (cases "connecting_of (connect_lock w) (tasks w)") auto
qed

theorem single_connection_attempt_witness:
  "let w = the (run sensor_globals_read_stable (sensor_init ''A'') [Host_Update])
   in reach sensor_globals_read_stable ''A'' w \<and> links w 1 = Link_Opening \<and>
      (\<forall>h. links w h = Link_Opening \<longrightarrow> h = 1)"
proof -
  define w where "w = the (run sensor_globals_read_stable (sensor_init ''A'') [Host_Update])"
  have run: "run sensor_globals_read_stable (sensor_init ''A'') [Host_Update] = Some w"
    by (simp add: w_def sensor_defs)
  then have r: "reach sensor_globals_read_stable ''A'' w" by (rule run_reach) (rule reach_init)
  have l: "links w 1 = Link_Opening" by (simp add: w_def sensor_defs)
  have "\<forall>h. links w h = Link_Opening \<longrightarrow> h = 1"
  proof (intro allI impI)
    fix h assume "links w h = Link_Opening"
    then show "h = 1" by (rule single_connection_attempt [OF r _ l])
  qed
  then show ?thesis unfolding Let_def w_def [symmetric] using r l by (intro conjI)
qed

text \<open>
  C9. In every reachable state at most one \<open>_retry_connect\<close> task is pending and not
  being cancelled: \<open>_schedule_retry\<close> cancels the previous retry before it creates the
  next, so retries never pile up.
\<close>

theorem single_pending_retry:
  assumes "reach rs a w" "tasks w t1 = Some tk1" "tasks w t2 = Some tk2"
    "is_retry_pc (pc tk1)" "\<not> cancelling tk1" "is_retry_pc (pc tk2)" "\<not> cancelling tk2"
  shows "t1 = t2"
proof -
  from assms(1) have "retry_inv w" by (simp add: reach_inv [unfolded inv_def])
  then have "t1 \<in> set_option (retry_task w)" "t2 \<in> set_option (retry_task w)"
    using assms(2-7) unfolding retry_inv_def by (blast dest: with_prop_subsetD)+
  then show ?thesis by (cases "retry_task w") auto
qed

theorem single_pending_retry_witness:
  "let w = the (run sensor_globals_read_stable (sensor_init ''A'')
                 [Host_Update, Connect_Done 0 Connect_Timeout])
   in reach sensor_globals_read_stable ''A'' w \<and>
      tasks w 2 = Some \<lparr>pc = Start_Retry, cancelling = False\<rparr> \<and>
      (\<forall>t tk. tasks w t = Some tk \<and> is_retry_pc (pc tk) \<and> \<not> cancelling tk \<longrightarrow> t = 2)"
proof -
  define w where "w = the (run sensor_globals_read_stable (sensor_init ''A'')
                 [Host_Update, Connect_Done 0 Connect_Timeout])"
  have run: "run sensor_globals_read_stable (sensor_init ''A'')
                 [Host_Update, Connect_Done 0 Connect_Timeout] = Some w"
    by (simp add: w_def sensor_defs)
  then have r: "reach sensor_globals_read_stable ''A'' w" by (rule run_reach) (rule reach_init)
  have t: "tasks w 2 = Some \<lparr>pc = Start_Retry, cancelling = False\<rparr>"
    by (simp add: w_def sensor_defs)
  have p: "is_retry_pc (pc \<lparr>pc = Start_Retry, cancelling = False\<rparr>)" by simp
  have "\<forall>t tk. tasks w t = Some tk \<and> is_retry_pc (pc tk) \<and> \<not> cancelling tk \<longrightarrow> t = 2"
  proof (intro allI impI)
    fix t tk assume a: "tasks w t = Some tk \<and> is_retry_pc (pc tk) \<and> \<not> cancelling tk"
    have nc: "\<not> cancelling \<lparr>pc = Start_Retry, cancelling = False\<rparr>" by simp
    from a show "t = 2" using single_pending_retry [OF r _ t _ _ p nc, of t tk] by simp
  qed
  then show ?thesis unfolding Let_def w_def [symmetric] using r t by (intro conjI)
qed

end
