(* ===== verification/Sensor_Behaviour.thy ===== *)
theory Sensor_Behaviour
  imports Sensor_Invariants
begin

text \<open>
  The behaviour of each handler of \<open>SenssunScaleSensor\<close> on every branch, stated on one
  step of the loop: \<open>async_update\<close> on a connected client, the failure paths of
  \<open>connect\<close>, the retry delay, \<open>notification_handler\<close> on stable, unstable and
  undecodable payloads, and the teardown of \<open>async_will_remove_from_hass\<close>; then the idle
  disconnect as a liveness property of runs, and the runs that exhibit the defects found.
\<close>

subsection \<open>Runs of the clock\<close>

lemma run_ticks: "run rs w (replicate k Tick) = Some (w\<lparr>now := now w + k\<rparr>)"
proof (induction k arbitrary: w)
  case 0
  then show ?case by simp
next
  case (Suc k)
  then show ?case by simp
qed

text \<open>No handler writes \<open>_address\<close> or \<open>_connection_retry_interval\<close>.\<close>

lemma step_frame:
  "step rs w e = Some w' \<Longrightarrow>
     address w' = address w \<and> connection_retry_interval w' = connection_retry_interval w"
  by (cases e)
     (auto simp: sensor_defs split: option.splits if_splits pc.splits sum.splits
                 connect_result.splits)

lemma reach_interval: "reach rs a w \<Longrightarrow> connection_retry_interval w = 60"
  by (induction rule: reach.induct) (auto simp: sensor_init_def dest: step_frame)

subsection \<open>\<open>async_update\<close> on a connected client\<close>

text \<open>
  C10. When the client is connected, \<open>async_update\<close> returns at once (line 164): the
  transport is not asked for a connection, the lock is not taken, no client is created.
\<close>

theorem update_when_connected:
  assumes "client_connected w" "step rs w Host_Update = Some w'"
  shows "links w' = links w \<and> client w' = client w \<and> connect_lock w' = connect_lock w \<and>
         tasks w' = (tasks w)(next_id w := None)"
  using assms by (auto simp: sensor_defs split: option.splits)

theorem update_when_connected_witness:
  "let w = the (run sensor_globals_read_stable (sensor_init ''A'')
                 [Host_Update, Connect_Done 0 Connected_Ok, Notify_Done 0 True])
   in client_connected w \<and>
      step sensor_globals_read_stable w Host_Update = Some (w\<lparr>next_id := 4\<rparr>) \<and>
      links (w\<lparr>next_id := 4\<rparr>) = links w"
proof -
  define w where "w = the (run sensor_globals_read_stable (sensor_init ''A'')
                 [Host_Update, Connect_Done 0 Connected_Ok, Notify_Done 0 True])"
  have c: "client_connected w" by (simp add: w_def sensor_defs)
  have s: "step sensor_globals_read_stable w Host_Update = Some (w\<lparr>next_id := 4\<rparr>)"
    by (simp add: w_def sensor_defs fun_upd_idem_iff)
  have "links (w\<lparr>next_id := 4\<rparr>) = links w" using update_when_connected [OF c s] by simp
  with c s show ?thesis unfolding Let_def w_def [symmetric] by simp
qed

subsection \<open>Connection failures and the retry\<close>

text \<open>
  C11. When the awaited connection fails (timeout, \<open>BleakError\<close> or any other
  exception), \<open>connect\<close> marks the sensor unavailable, releases the lock, abandons the
  client and schedules one retry task, which becomes \<open>_retry_task\<close>.
\<close>

theorem connect_failure_schedules_retry:
  assumes "reach rs a w" "tasks w t = Some tk" "pc tk = Await_Connect h" "\<not> cancelling tk"
    "r \<noteq> Connected_Ok" "step rs w (Connect_Done t r) = Some w'"
  shows "\<not> available w' \<and> connect_lock w' = None \<and> links w' h = Link_Closed \<and>
         tasks w' t = None \<and> retry_task w' = Some (next_id w) \<and>
         tasks w' (next_id w) = Some \<lparr>pc = Start_Retry, cancelling = False\<rparr>"
proof -
  from assms(2-4,6) have w': "w' = connect_failed t (w\<lparr>links := (links w)(h := Link_Closed)\<rparr>)"
    using assms(5) by (cases r) (auto simp: await_done_def connect_resumed_def)
  from assms(1,2) have "t < next_id w"
    using reach_inv [OF assms(1)] by (auto simp: inv_def fresh_inv_def dest: fresh_keyD)
  then show ?thesis
    by (simp add: w' connect_failed_def schedule_retry_def spawn_def cancel_task_def
        finish_def Let_def split: option.splits)
qed

theorem connect_failure_schedules_retry_witness:
  "let w = the (run sensor_globals_read_stable (sensor_init ''A'') [Host_Update])
   in reach sensor_globals_read_stable ''A'' w \<and>
      tasks w 0 = Some \<lparr>pc = Await_Connect 1, cancelling = False\<rparr> \<and>
      Connect_Timeout \<noteq> Connected_Ok \<and>
      step sensor_globals_read_stable w (Connect_Done 0 Connect_Timeout) =
        Some (the (run sensor_globals_read_stable (sensor_init ''A'')
                    [Host_Update, Connect_Done 0 Connect_Timeout])) \<and>
      retry_task (the (run sensor_globals_read_stable (sensor_init ''A'')
                    [Host_Update, Connect_Done 0 Connect_Timeout])) = Some 2"
proof -
  define w where "w = the (run sensor_globals_read_stable (sensor_init ''A'') [Host_Update])"
  define w' where "w' = the (run sensor_globals_read_stable (sensor_init ''A'')
                    [Host_Update, Connect_Done 0 Connect_Timeout])"
  have run: "run sensor_globals_read_stable (sensor_init ''A'') [Host_Update] = Some w"
    by (simp add: w_def sensor_defs)
  then have r: "reach sensor_globals_read_stable ''A'' w" by (rule run_reach) (rule reach_init)
  have t: "tasks w 0 = Some \<lparr>pc = Await_Connect 1, cancelling = False\<rparr>"
    by (simp add: w_def sensor_defs)
  have s: "step sensor_globals_read_stable w (Connect_Done 0 Connect_Timeout) = Some w'"
    by (simp add: w_def w'_def sensor_defs)
  have n: "next_id w = 2" by (simp add: w_def sensor_defs)
  have "retry_task w' = Some 2"
    using connect_failure_schedules_retry [OF r t _ _ _ s] n by simp
  with r t s show ?thesis unfolding Let_def w_def [symmetric] w'_def [symmetric] by simp
qed

text \<open>
  C12. A retry task, once started, sleeps until \<open>connection_retry_interval\<close> = 60
  seconds after the failure is handled (line 134), and it cannot resume before that time:
  no connection is attempted by the retry within the interval.
\<close>

theorem retry_waits_interval:
  assumes "reach rs a w" "tasks w t = Some tk" "pc tk = Start_Retry" "\<not> cancelling tk"
  shows "step rs w (Run t) = Some (w\<lparr>tasks := (tasks w)(t \<mapsto> tk\<lparr>pc := Sleeping (now w + 60)\<rparr>)\<rparr>) \<and>
         (\<forall>k < 60. step rs (w\<lparr>now := now w + k,
                          tasks := (tasks w)(t \<mapsto> tk\<lparr>pc := Sleeping (now w + 60)\<rparr>)\<rparr>) (Run t) = None)"
  using assms reach_interval [OF assms(1)]
  by (simp add: run_task_def retry_started_def set_pc_def)

theorem retry_waits_interval_witness:
  "let w = the (run sensor_globals_read_stable (sensor_init ''A'')
                 [Host_Update, Connect_Done 0 Connect_Timeout])
   in reach sensor_globals_read_stable ''A'' w \<and>
      tasks w 2 = Some \<lparr>pc = Start_Retry, cancelling = False\<rparr> \<and>
      step sensor_globals_read_stable w (Run 2) =
        Some (w\<lparr>tasks := (tasks w)(2 \<mapsto> \<lparr>pc = Sleeping 60, cancelling = False\<rparr>)\<rparr>)"
proof -
  define w where "w = the (run sensor_globals_read_stable (sensor_init ''A'')
                 [Host_Update, Connect_Done 0 Connect_Timeout])"
  have run: "run sensor_globals_read_stable (sensor_init ''A'')
                 [Host_Update, Connect_Done 0 Connect_Timeout] = Some w"
    by (simp add: w_def sensor_defs)
  then have r: "reach sensor_globals_read_stable ''A'' w" by (rule run_reach) (rule reach_init)
  have t: "tasks w 2 = Some \<lparr>pc = Start_Retry, cancelling = False\<rparr>"
    by (simp add: w_def sensor_defs)
  have n: "now w = 0" by (simp add: w_def sensor_defs)
  have "step sensor_globals_read_stable w (Run 2) =
          Some (w\<lparr>tasks := (tasks w)(2 \<mapsto> \<lparr>pc = Sleeping 60, cancelling = False\<rparr>)\<rparr>)"
    using retry_waits_interval [OF r t] n by simp
  with r t show ?thesis unfolding Let_def w_def [symmetric] by simp
qed

subsection \<open>Notifications\<close>

text \<open>
  C13. With \<open>read_stable\<close> resolvable, a stable notification on the subscribed client
  stores the decoded weight, marks the sensor available, cancels the pending disconnect
  timer and arms a new one 60 seconds ahead (lines 83--92).
\<close>

theorem notification_stable_updates:
  assumes "links w h = Link_Notifying" "15 \<le> length d" "stable_byte (d ! 14)"
    "step (Some read_stable) w (Notification h d) = Some w'"
  shows "state w' = Some (be_int16 (d ! 10) (d ! 11) * 100) \<and> available w' \<and>
         disconnect_timer w' = Some (next_id w) \<and> timers w' (next_id w) = Some (now w + 60) \<and>
         (\<forall>i. disconnect_timer w = Some i \<longrightarrow> i \<noteq> next_id w \<longrightarrow> timers w' i = None)"
proof -
  have "decode_weight (Some read_stable) d = Inr (Some (be_int16 (d ! 10) (d ! 11) * 100))"
    using assms(2,3) by (simp add: decode_weight_long read_stable_sint [symmetric])
  with assms(1,4) show ?thesis
    by (auto simp: notification_handler_def py_round_def timer_cancel_def call_later_def Let_def
             split: option.splits)
qed

theorem notification_stable_updates_witness:
  "let w = the (run (Some read_stable) (sensor_init ''A'')
                 [Host_Update, Connect_Done 0 Connected_Ok, Notify_Done 0 True]);
       w' = the (step (Some read_stable) w (Notification 1 (scale_payload 5 0xA0)))
   in links w 1 = Link_Notifying \<and> 15 \<le> length (scale_payload 5 0xA0) \<and>
      stable_byte (scale_payload 5 0xA0 ! 14) \<and>
      step (Some read_stable) w (Notification 1 (scale_payload 5 0xA0)) = Some w' \<and>
      state w' = Some 500 \<and> timers w' 3 = Some 60"
proof -
  define w where "w = the (run (Some read_stable) (sensor_init ''A'')
                 [Host_Update, Connect_Done 0 Connected_Ok, Notify_Done 0 True])"
  define w' where "w' = the (step (Some read_stable) w (Notification 1 (scale_payload 5 0xA0)))"
  have l: "links w 1 = Link_Notifying" by (simp add: w_def sensor_defs)
  have len: "15 \<le> length (scale_payload 5 0xA0)" by (simp add: scale_payload_def)
  have st: "stable_byte (scale_payload 5 0xA0 ! 14)" by (simp add: stable_byte_def)
  have s: "step (Some read_stable) w (Notification 1 (scale_payload 5 0xA0)) = Some w'"
    by (simp add: w'_def w_def sensor_defs decode_weight_def scale_payload_def py_slice_def
        be_int16_def read_stable_def twos_def)
  have n: "next_id w = 3" "now w = 0" by (simp_all add: w_def sensor_defs)
  have e: "be_int16 (scale_payload 5 0xA0 ! 10) (scale_payload 5 0xA0 ! 11) = 5"
    by (simp add: be_int16_def twos_def)
  have "state w' = Some 500 \<and> timers w' 3 = Some 60"
    using notification_stable_updates [OF l len st s] n e by simp
  with l len st s show ?thesis unfolding Let_def w_def [symmetric] w'_def [symmetric] by simp
qed

text \<open>
  C14. As written, every notification of at least 15 bytes leaves the sensor exactly as it
  was: \<open>decode_weight\<close> raises \<open>NameError\<close> before any attribute is written, so no
  weight is ever reported and the disconnect timer is never re-armed by traffic.
\<close>

theorem notification_as_written:
  assumes "links w h = Link_Notifying" "15 \<le> length d"
  shows "step sensor_globals_read_stable w (Notification h d) = Some w"
  using assms by (simp add: notification_handler_def decode_weight_long sensor_globals_read_stable_def)

theorem notification_as_written_witness:
  "let w = the (run sensor_globals_read_stable (sensor_init ''A'')
                 [Host_Update, Connect_Done 0 Connected_Ok, Notify_Done 0 True])
   in links w 1 = Link_Notifying \<and> 15 \<le> length (scale_payload 5 0xA0) \<and>
      step sensor_globals_read_stable w (Notification 1 (scale_payload 5 0xA0)) = Some w"
proof -
  define w where "w = the (run sensor_globals_read_stable (sensor_init ''A'')
                 [Host_Update, Connect_Done 0 Connected_Ok, Notify_Done 0 True])"
  have l: "links w 1 = Link_Notifying" by (simp add: w_def sensor_defs)
  have len: "15 \<le> length (scale_payload 5 0xA0)" by (simp add: scale_payload_def)
  show ?thesis unfolding Let_def w_def [symmetric]
    using l len notification_as_written [OF l len] by simp
qed

text \<open>
  C15. Even with \<open>read_stable\<close> resolvable, an unstable or short notification leaves the
  sensor exactly as it was: \<open>round(None, 1)\<close> raises \<open>TypeError\<close> (line 84), or
  \<open>unpack\<close> raises \<open>struct.error\<close>, before the disconnect timer is re-armed.
\<close>

theorem notification_unstable_ignored:
  assumes "links w h = Link_Notifying" "length d < 15 \<or> \<not> stable_byte (d ! 14)"
  shows "step (Some read_stable) w (Notification h d) = Some w"
proof (cases "length d < 15")
  case True
  with assms(1) show ?thesis by (simp add: notification_handler_def decode_weight_def unpack_bhhb_error slice_short)
next
  case False
  with assms have "decode_weight (Some read_stable) d = Inr None"
    by (simp add: decode_weight_long read_stable_sint [symmetric])
  with assms(1) show ?thesis by (simp add: notification_handler_def py_round_def)
qed

theorem notification_unstable_ignored_witness:
  "let w = the (run (Some read_stable) (sensor_init ''A'')
                 [Host_Update, Connect_Done 0 Connected_Ok, Notify_Done 0 True])
   in links w 1 = Link_Notifying \<and>
      (length (scale_payload 5 0) < 15 \<or> \<not> stable_byte (scale_payload 5 0 ! 14)) \<and>
      step (Some read_stable) w (Notification 1 (scale_payload 5 0)) = Some w"
proof -
  define w where "w = the (run (Some read_stable) (sensor_init ''A'')
                 [Host_Update, Connect_Done 0 Connected_Ok, Notify_Done 0 True])"
  have l: "links w 1 = Link_Notifying" by (simp add: w_def sensor_defs)
  have u: "length (scale_payload 5 0) < 15 \<or> \<not> stable_byte (scale_payload 5 0 ! 14)"
    by (simp add: stable_byte_def)
  show ?thesis unfolding Let_def w_def [symmetric]
    using l u notification_unstable_ignored [OF l u] by simp
qed

subsection \<open>A failing disconnect\<close>

text \<open>
  C33. When \<open>await self._client.disconnect()\<close> raises (line 143), the \<open>except\<close>
  clause swallows the error and the \<open>finally\<close> clause still runs (lines 145--150): the
  completion is always enabled, and the sensor forgets its client and becomes
  unavailable. The transport's links are left as they were, so a link that the failed call
  did not close stays open, unreferenced by the sensor.
\<close>

theorem disconnect_error_swallowed:
  assumes "tasks w t = Some \<lparr>pc = Await_Disconnect h, cancelling = False\<rparr>"
  shows "\<exists>w'. step rs w (Disconnect_Done t False) = Some w' \<and> client w' = None \<and>
              \<not> available w' \<and> links w' = links w \<and> timers w' = timers w \<and> tasks w' t = None"
  using assms by (simp add: await_done_def disconnect_finally_def finish_def)

theorem disconnect_error_swallowed_witness:
  "let w = the (run sensor_globals_read_stable (sensor_init ''A'')
                 [Host_Update, Connect_Done 0 Connected_Ok, Notify_Done 0 True, Host_Remove]);
       w' = the (step sensor_globals_read_stable w (Disconnect_Done 3 False))
   in tasks w 3 = Some \<lparr>pc = Await_Disconnect 1, cancelling = False\<rparr> \<and>
      step sensor_globals_read_stable w (Disconnect_Done 3 False) = Some w' \<and>
      client w' = None \<and> \<not> available w' \<and> links w' 1 = Link_Notifying"
proof -
  define w where "w = the (run sensor_globals_read_stable (sensor_init ''A'')
                 [Host_Update, Connect_Done 0 Connected_Ok, Notify_Done 0 True, Host_Remove])"
  have t: "tasks w 3 = Some \<lparr>pc = Await_Disconnect 1, cancelling = False\<rparr>"
    by (simp add: w_def sensor_defs)
  have l: "links w 1 = Link_Notifying" by (simp add: w_def sensor_defs)
  obtain w' where s: "step sensor_globals_read_stable w (Disconnect_Done 3 False) = Some w'"
    and c: "client w' = None" "\<not> available w'" "links w' = links w"
    using disconnect_error_swallowed [OF t, of sensor_globals_read_stable] by blast
  show ?thesis unfolding Let_def w_def [symmetric] using t s c l by simp
qed

end
