(* ===== verification/Sensor_Lifecycle.thy ===== *)
theory Sensor_Lifecycle
  imports Sensor_Behaviour
begin

text \<open>
  Properties of the connection manager over many steps: the value the entity reports
  is always a weight the decoder produced; teardown by
  \<open>async_will_remove_from_hass\<close> is safe to repeat; an armed disconnect timer ends
  the connection once it is due; a connection failure leads, after the retry interval,
  to a new connection attempt.
\<close>

text \<open>The value \<open>_state\<close> reports: none yet, or a weight of the decoder's range.\<close>

definition weight_ok :: "world \<Rightarrow> bool" where
  "weight_ok w =
     (case state w of None \<Rightarrow> True
      | Some v \<Rightarrow> v mod 100 = 0 \<and> - 3276800 \<le> v \<and> v \<le> 3276700)"

subsection \<open>The reported weight\<close>

text \<open>Only \<open>notification_handler\<close> writes \<open>_state\<close>, with a weight the decoder returned.\<close>

lemma step_state:
  assumes "step rs w e = Some w'"
  shows "state w' = state w \<or> (\<exists>d g. decode_weight rs d = Inr (Some g) \<and> state w' = Some g)"
  using assms
  by (cases e)
     (auto simp: sensor_defs split: option.splits if_splits pc.splits sum.splits
                 connect_result.splits)

lemma step_weight_ok: "weight_ok w \<Longrightarrow> step rs w e = Some w' \<Longrightarrow> weight_ok w'"
  using step_state [of rs w e w']
  by (auto simp: weight_ok_def dest: decode_weight_some_range split: option.splits)

lemma reach_weight_ok: "reach rs a w \<Longrightarrow> weight_ok w"
proof (induction rule: reach.induct)
  case reach_init
  show ?case by (simp add: weight_ok_def sensor_init_def)
next
  case (reach_step w e w')
  from reach_step.IH reach_step.hyps(2) show ?case by (rule step_weight_ok)
qed

text \<open>
  C18. In every reachable state the entity's state is \<open>None\<close> or a whole number of
  100-gram units within the range of the scale's signed 16-bit field: the host is never
  shown a value the decoder could not have produced.
\<close>

theorem reported_weight_range:
  assumes "reach rs a w" "state w = Some v"
  shows "v mod 100 = 0 \<and> - 3276800 \<le> v \<and> v \<le> 3276700"
  using reach_weight_ok [OF assms(1)] assms(2) by (simp add: weight_ok_def)

theorem reported_weight_range_witness:
  "let w = the (run (Some read_stable) (sensor_init ''A'')
                 [Host_Update, Connect_Done 0 Connected_Ok, Notify_Done 0 True,
                  Notification 1 (scale_payload 5 0xA0)])
   in reach (Some read_stable) ''A'' w \<and> state w = Some 500 \<and>
      500 mod 100 = (0 :: int) \<and> - 3276800 \<le> (500 :: int) \<and> (500 :: int) \<le> 3276700"
proof -
  define w where "w = the (run (Some read_stable) (sensor_init ''A'')
                 [Host_Update, Connect_Done 0 Connected_Ok, Notify_Done 0 True,
                  Notification 1 (scale_payload 5 0xA0)])"
  have run: "run (Some read_stable) (sensor_init ''A'')
                 [Host_Update, Connect_Done 0 Connected_Ok, Notify_Done 0 True,
                  Notification 1 (scale_payload 5 0xA0)] = Some w"
    by (simp add: w_def sensor_defs decode_weight_def scale_payload_def py_slice_def
        be_int16_def read_stable_def twos_def)
  then have r: "reach (Some read_stable) ''A'' w" by (rule run_reach) (rule reach_init)
  have st: "state w = Some 500"
    by (simp add: w_def sensor_defs decode_weight_def scale_payload_def py_slice_def
        be_int16_def read_stable_def twos_def)
  have "500 mod 100 = (0 :: int) \<and> - 3276800 \<le> (500 :: int) \<and> (500 :: int) \<le> 3276700"
    using reported_weight_range [OF r st] .
  then show ?thesis unfolding Let_def w_def [symmetric] using r st by (intro conjI) simp_all
qed

subsection \<open>Teardown\<close>

text \<open>
  C19. Teardown is idempotent: once the client is gone, a further call of
  \<open>async_will_remove_from_hass\<close> asks nothing of the transport and raises nothing. The
  \<open>AttributeError\<close> of \<open>self._client.disconnect\<close> on \<open>None\<close> is swallowed and the
  \<open>finally\<close> clause runs: the links, the timers and the suspension point of every
  task are as before, and the sensor stays without client and unavailable.
\<close>

theorem teardown_idempotent:
  assumes "reach rs a w" "client w = None" "step rs w Host_Remove = Some w'"
  shows "links w' = links w \<and> timers w' = timers w \<and> client w' = None \<and> \<not> available w' \<and>
         (\<lambda>t. map_option pc (tasks w' t)) = (\<lambda>t. map_option pc (tasks w t))"
proof -
  have "tasks w (next_id w) = None"
    using reach_inv [OF assms(1)] by (simp add: inv_def fresh_inv_def)
  then show ?thesis
    using assms(2,3) by (auto simp: sensor_defs fun_eq_iff option.map_comp o_def split: option.splits)
qed

theorem teardown_idempotent_witness:
  "let w = the (run sensor_globals_read_stable (sensor_init ''A'')
                 [Host_Update, Connect_Done 0 Connected_Ok, Notify_Done 0 True, Host_Remove,
                  Link_Down 1, Disconnect_Done 3 True])
   in reach sensor_globals_read_stable ''A'' w \<and> client w = None \<and>
      step sensor_globals_read_stable w Host_Remove =
        Some (the (step sensor_globals_read_stable w Host_Remove)) \<and>
      links (the (step sensor_globals_read_stable w Host_Remove)) = links w"
proof -
  define w where "w = the (run sensor_globals_read_stable (sensor_init ''A'')
                 [Host_Update, Connect_Done 0 Connected_Ok, Notify_Done 0 True, Host_Remove,
                  Link_Down 1, Disconnect_Done 3 True])"
  have run: "run sensor_globals_read_stable (sensor_init ''A'')
                 [Host_Update, Connect_Done 0 Connected_Ok, Notify_Done 0 True, Host_Remove,
                  Link_Down 1, Disconnect_Done 3 True] = Some w"
    by (simp add: w_def sensor_defs)
  then have r: "reach sensor_globals_read_stable ''A'' w" by (rule run_reach) (rule reach_init)
  have c: "client w = None" by (simp add: w_def sensor_defs)
  have s: "step sensor_globals_read_stable w Host_Remove =
             Some (the (step sensor_globals_read_stable w Host_Remove))"
    by (simp add: will_remove_def)
  have "links (the (step sensor_globals_read_stable w Host_Remove)) = links w"
    using teardown_idempotent [OF r c s] by simp
  then show ?thesis unfolding Let_def w_def [symmetric] using r c s by (intro conjI)
qed

subsection \<open>The idle disconnect\<close>

text \<open>
  C20. Liveness of the idle disconnect: when the disconnect timer of a connected client
  is due, the loop reaches a state without client and unavailable: the clock reaches the
  deadline, the timer calls \<open>disconnect\<close> (line 137), which creates the
  \<open>_disconnect\<close> task; that task asks the transport to disconnect, the link goes down
  and the \<open>finally\<close> clause forgets the client (lines 147--149).
\<close>

theorem idle_timer_disconnects:
  assumes "timers w i = Some d" "now w \<le> d" "client w = Some h" "is_connected w h"
  shows "\<exists>w'. run rs w (replicate (d - now w) Tick @
                [Fire i, Run (next_id w), Link_Down h, Disconnect_Done (next_id w) True]) = Some w' \<and>
              client w' = None \<and> \<not> available w' \<and> links w' h = Link_Closed"
proof -
  have d: "now w + (d - now w) = d" using assms(2) by simp
  have c: "links w h = Link_Open \<or> links w h = Link_Notifying"
    using assms(4) by (simp add: is_connected_def)
  show ?thesis
    using assms(1,3) c by (auto simp: run_append run_ticks d sensor_defs)
qed

theorem idle_timer_disconnects_witness:
  "let w = the (run sensor_globals_read_stable (sensor_init ''A'')
                 [Host_Update, Connect_Done 0 Connected_Ok, Notify_Done 0 True])
   in timers w 2 = Some 60 \<and> now w \<le> 60 \<and> client w = Some 1 \<and> is_connected w 1 \<and>
      (\<exists>w'. run sensor_globals_read_stable w (replicate (60 - now w) Tick @
                [Fire 2, Run (next_id w), Link_Down 1, Disconnect_Done (next_id w) True]) = Some w' \<and>
            client w' = None \<and> \<not> available w' \<and> links w' 1 = Link_Closed)"
proof -
  define w where "w = the (run sensor_globals_read_stable (sensor_init ''A'')
                 [Host_Update, Connect_Done 0 Connected_Ok, Notify_Done 0 True])"
  have t: "timers w 2 = Some 60" and n: "now w \<le> 60" and c: "client w = Some 1"
    and l: "is_connected w 1"
    by (simp_all add: w_def sensor_defs)
  show ?thesis unfolding Let_def w_def [symmetric]
    using t n c l idle_timer_disconnects [OF t n c l] by simp
qed

subsection \<open>The retry reconnects\<close>

text \<open>
  C21. Liveness of the retry: a retry task created after a failed connection, once it
  runs, sleeps \<open>connection_retry_interval\<close> = 60 seconds and then calls
  \<open>async_update\<close>; when the lock is free and the client is not connected, this starts a
  new connection attempt with a new \<open>BleakClient\<close> (lines 133--135, 162--165, 94--101).
\<close>

theorem retry_reconnects:
  assumes "reach rs a w" "tasks w r = Some \<lparr>pc = Start_Retry, cancelling = False\<rparr>"
    "connect_lock w = None" "\<not> client_connected w"
  shows "\<exists>w'. run rs w (Run r # replicate 60 Tick @ [Run r]) = Some w' \<and>
              tasks w' r = Some \<lparr>pc = Await_Connect (next_id w), cancelling = False\<rparr> \<and>
              client w' = Some (next_id w) \<and> links w' (next_id w) = Link_Opening \<and>
              connect_lock w' = Some r"
  using assms(2-4) reach_interval [OF assms(1)]
  by (simp add: run_append run_ticks sensor_defs split: option.splits)

theorem retry_reconnects_witness:
  "let w = the (run sensor_globals_read_stable (sensor_init ''A'')
                 [Host_Update, Connect_Done 0 Connect_Timeout])
   in reach sensor_globals_read_stable ''A'' w \<and>
      tasks w 2 = Some \<lparr>pc = Start_Retry, cancelling = False\<rparr> \<and>
      connect_lock w = None \<and> \<not> client_connected w \<and> next_id w = 3 \<and>
      (\<exists>w'. run sensor_globals_read_stable w (Run 2 # replicate 60 Tick @ [Run 2]) = Some w' \<and>
            tasks w' 2 = Some \<lparr>pc = Await_Connect 3, cancelling = False\<rparr> \<and>
            client w' = Some 3 \<and> links w' 3 = Link_Opening \<and> connect_lock w' = Some 2)"
proof -
  define w where "w = the (run sensor_globals_read_stable (sensor_init ''A'')
                 [Host_Update, Connect_Done 0 Connect_Timeout])"
  have run: "run sensor_globals_read_stable (sensor_init ''A'')
                 [Host_Update, Connect_Done 0 Connect_Timeout] = Some w"
    by (simp add: w_def sensor_defs)
  then have r: "reach sensor_globals_read_stable ''A'' w" by (rule run_reach) (rule reach_init)
  have t: "tasks w 2 = Some \<lparr>pc = Start_Retry, cancelling = False\<rparr>"
    and l: "connect_lock w = None" and c: "\<not> client_connected w" and n: "next_id w = 3"
    by (simp_all add: w_def sensor_defs)
  show ?thesis unfolding Let_def w_def [symmetric]
    using r t l c n retry_reconnects [OF r t l c] by simp
qed

subsection \<open>The lock is always released\<close>

text \<open>
  C29. No task waits for \<open>_connect_lock\<close> forever for want of a possible event: in
  every reachable state where the lock is held, one event releases it. The holder is
  suspended at \<open>client.connect()\<close> or \<open>start_notify\<close>. If it is being cancelled,
  running it releases the lock through \<open>async with\<close>. Otherwise the awaited call
  completing does: a failed connection reaches the \<open>except\<close> clauses, and a successful
  subscription ends the block.
\<close>

theorem lock_release_enabled:
  assumes "reach rs a w" "connect_lock w = Some h"
  shows "\<exists>e w'. step rs w e = Some w' \<and> connect_lock w' = None"
proof -
  have "lock_inv w" using reach_inv [OF assms(1)] by (simp add: inv_def)
  then obtain tk where tk: "tasks w h = Some tk" "in_connect (pc tk)"
    using assms(2) by (blast dest: lock_inv_holder)
  show ?thesis
  proof (cases "cancelling tk")
    case True
    with tk have "step rs w (Run h) = Some (task_cancelled h (pc tk) w)"
      by (simp add: run_task_def)
    moreover have "connect_lock (task_cancelled h (pc tk) w) = None"
      using tk(2) by (cases "pc tk") (simp_all add: task_cancelled_def finish_def)
    ultimately show ?thesis by blast
  next
    case False
    show ?thesis
    proof (cases "pc tk")
      case (Await_Connect c)
      with tk False have "step rs w (Connect_Done h Connect_Timeout) =
          Some (connect_failed h (w\<lparr>links := (links w)(c := Link_Closed)\<rparr>))"
        by (simp add: await_done_def connect_resumed_def)
      moreover have "connect_lock (connect_failed h (w\<lparr>links := (links w)(c := Link_Closed)\<rparr>)) = None"
        by (simp add: connect_failed_def finish_def)
      ultimately show ?thesis by blast
    next
      case (Await_Notify c)
      with tk False have "step rs w (Notify_Done h True) = Some (notify_resumed h c True w)"
        by (simp add: await_done_def)
      moreover have "connect_lock (notify_resumed h c True w) = None"
        by (simp add: notify_resumed_def call_later_def finish_def Let_def)
      ultimately show ?thesis by blast
    qed (use tk in simp_all)
  qed
qed

theorem lock_release_enabled_witness:
  "let w = the (run sensor_globals_read_stable (sensor_init ''A'')
                 [Host_Update, Connect_Done 0 Connected_Ok])
   in reach sensor_globals_read_stable ''A'' w \<and> connect_lock w = Some 0 \<and>
      (\<exists>e w'. step sensor_globals_read_stable w e = Some w' \<and> connect_lock w' = None)"
proof -
  define w where "w = the (run sensor_globals_read_stable (sensor_init ''A'')
                 [Host_Update, Connect_Done 0 Connected_Ok])"
  have run: "run sensor_globals_read_stable (sensor_init ''A'')
                 [Host_Update, Connect_Done 0 Connected_Ok] = Some w"
    by (simp add: w_def sensor_defs)
  then have r: "reach sensor_globals_read_stable ''A'' w" by (rule run_reach) (rule reach_init)
  have l: "connect_lock w = Some 0" by (simp add: w_def sensor_defs)
  show ?thesis unfolding Let_def w_def [symmetric]
    using r l lock_release_enabled [OF r l] by blast
qed

subsection \<open>\<open>disconnect\<close> without a connected client\<close>

text \<open>
  C30. \<open>disconnect()\<close> is safe when the sensor is not connected (spec, section 4.2):
  when a disconnect timer fires and the client is absent or not connected, the callback
  only consumes the timer. No task is created and nothing else changes.
\<close>

theorem disconnect_noop:
  assumes "\<not> client_connected w" "timers w i = Some d" "d \<le> now w"
  shows "step rs w (Fire i) = Some (w\<lparr>timers := (timers w)(i := None)\<rparr>)"
  using assms by (simp add: disconnect_def client_connected_def is_connected_def
                    split: option.splits)

theorem disconnect_noop_witness:
  "let w = the (run sensor_globals_read_stable (sensor_init ''A'')
                 ([Host_Update, Connect_Done 0 Connected_Ok, Notify_Done 0 True, Link_Down 1] @
                  replicate 60 Tick))
   in \<not> client_connected w \<and> timers w 2 = Some 60 \<and> 60 \<le> now w \<and>
      step sensor_globals_read_stable w (Fire 2) = Some (w\<lparr>timers := (timers w)(2 := None)\<rparr>)"
proof -
  define w where "w = the (run sensor_globals_read_stable (sensor_init ''A'')
                 ([Host_Update, Connect_Done 0 Connected_Ok, Notify_Done 0 True, Link_Down 1] @
                  replicate 60 Tick))"
  have c: "\<not> client_connected w" and t: "timers w 2 = Some 60" and n: "60 \<le> now w"
    by (simp_all add: w_def run_append run_ticks sensor_defs)
  show ?thesis unfolding Let_def w_def [symmetric]
    using c t n disconnect_noop [OF c t n] by simp
qed

end
