(* ===== verification/Sensor_Defects.thy ===== *)
theory Sensor_Defects
  imports Sensor_Lifecycle
begin

text \<open>
  Runs of the loop that exhibit the defects of the connection manager: each theorem
  evaluates one explicit sequence of events from a freshly constructed sensor and states
  the state it ends in. The event sequences are ordinary behaviours of the transport
  (a failing \<open>start_notify\<close>, a device that drops the link) and of the host. The last
  theorem states on every reachable state what \<open>connect\<close> does when its client has been
  cleared while it awaited the connection.
\<close>

subsection \<open>A failed \<open>start_notify\<close> leaves the link open\<close>

text \<open>
  C22. When \<open>client.connect()\<close> succeeds and \<open>start_notify\<close> fails, the \<open>except\<close>
  clauses mark the sensor unavailable and schedule a retry, but the connected client is
  kept (lines 103--125). When the retry runs, \<open>async_update\<close> finds the client
  connected and returns (line 164). The sensor ends with an open link, no subscription,
  no disconnect timer and no task: it stays unavailable, no notification can reach it, and
  every further \<open>async_update\<close> returns at once.
\<close>

theorem notify_failure_stuck:
  "let es = [Host_Update, Connect_Done 0 Connected_Ok, Notify_Done 0 False, Run 2] @
            replicate 60 Tick @ [Run 2];
       w = the (run rs (sensor_init a) es)
   in run rs (sensor_init a) es = Some w \<and>
      links w 1 = Link_Open \<and> client_connected w \<and> \<not> available w \<and>
      timers w = Map.empty \<and> tasks w = Map.empty \<and>
      step rs w (Notification 1 d) = None \<and>
      step rs w Host_Update = Some (w\<lparr>next_id := Suc (next_id w)\<rparr>)"
  by (simp add: run_append run_ticks sensor_defs fun_upd_idem_iff fun_eq_iff)

subsection \<open>The initial disconnect timer is never cancelled\<close>

text \<open>
  C23. \<open>connect\<close> stores a new disconnect timer without cancelling the one in
  \<open>_disconnect_timer\<close> (line 112). After the device drops the link and the sensor
  reconnects, the first connection's timer is still pending; it fires 60 seconds after
  the first connection and creates a \<open>_disconnect\<close> task for the new client, although
  a reading arrived 30 seconds earlier and re-armed the idle timer to 90.
\<close>

theorem stale_disconnect_timer:
  "let es = [Host_Update, Connect_Done 0 Connected_Ok, Notify_Done 0 True, Link_Down 1,
             Host_Update, Connect_Done 3 Connected_Ok, Notify_Done 3 True] @
            replicate 30 Tick @ [Notification 4 (scale_payload 5 0xA0)] @
            replicate 30 Tick @ [Fire 2];
       w = the (run (Some read_stable) (sensor_init a) es)
   in run (Some read_stable) (sensor_init a) es = Some w \<and>
      now w = 60 \<and> state w = Some 500 \<and> client w = Some 4 \<and> is_connected w 4 \<and>
      disconnect_timer w = Some 6 \<and> timers w 6 = Some 90 \<and>
      tasks w 7 = Some \<lparr>pc = Start_Disconnect, cancelling = False\<rparr>"
  by (simp add: run_append run_ticks sensor_defs decode_weight_def scale_payload_def
      py_slice_def be_int16_def read_stable_def twos_def)

subsection \<open>The \<open>finally\<close> clause forgets a newer client\<close>

text \<open>
  C24. \<open>_disconnect\<close> sets \<open>self._client = None\<close> in its \<open>finally\<close> clause
  (line 148) whichever client is current by then. The idle timer starts a
  \<open>_disconnect\<close>; while it awaits \<open>client.disconnect()\<close> the link goes down, the host
  calls \<open>async_update\<close> and a new client connects. While that \<open>connect\<close> awaits
  \<open>start_notify\<close> on the new client, the old \<open>client.disconnect()\<close> returns and the
  \<open>finally\<close> clause forgets the new client; \<open>start_notify\<close> then succeeds on it, and the
  next \<open>async_update\<close> creates a third client: two subscribed connections to the scale
  are live at once, and the first of them is no longer referenced by the sensor.
\<close>

theorem stale_finally_two_links:
  "let es = [Host_Update, Connect_Done 0 Connected_Ok, Notify_Done 0 True] @
            replicate 60 Tick @
            [Fire 2, Run 3, Link_Down 1, Host_Update, Connect_Done 4 Connected_Ok,
             Disconnect_Done 3 True, Notify_Done 4 True,
             Host_Update, Connect_Done 7 Connected_Ok, Notify_Done 7 True];
       w = the (run rs (sensor_init a) es)
   in run rs (sensor_init a) es = Some w \<and>
      links w 5 = Link_Notifying \<and> links w 8 = Link_Notifying \<and> client w = Some 8"
  by (simp add: run_append run_ticks sensor_defs)

text \<open>
  C28. In the same run, once the forgotten connection is subscribed, the next
  \<open>async_update\<close> starts a connection attempt while notifications still arrive on the
  forgotten link. A notification is handled while the connect sequence holds the lock,
  which the spec excludes (section 5: no notification is processed while a connect
  attempt is in flight).
\<close>

theorem notification_during_connect:
  "let es = [Host_Update, Connect_Done 0 Connected_Ok, Notify_Done 0 True] @
            replicate 60 Tick @
            [Fire 2, Run 3, Link_Down 1, Host_Update, Connect_Done 4 Connected_Ok,
             Disconnect_Done 3 True, Notify_Done 4 True, Host_Update];
       w = the (run rs (sensor_init a) es)
   in run rs (sensor_init a) es = Some w \<and> connect_lock w = Some 7 \<and>
      tasks w 7 = Some \<lparr>pc = Await_Connect 8, cancelling = False\<rparr> \<and>
      step rs w (Notification 5 d) \<noteq> None"
  by (simp add: run_append run_ticks sensor_defs)

subsection \<open>A connection made after the \<open>finally\<close> clause is orphaned\<close>

text \<open>
  C34. When the \<open>finally\<close> clause of a \<open>_disconnect\<close> has cleared \<open>self._client\<close>
  while a \<open>connect\<close> awaited \<open>client.connect()\<close>, and the connection then succeeds,
  line 105 looks up \<open>start_notify\<close> on \<open>None\<close> and raises \<open>AttributeError\<close>. The
  clause \<open>except Exception\<close> (line 122) marks the sensor unavailable, releases the
  lock and schedules a retry, while the link just opened stays open with no reference to
  its client left in the sensor.
\<close>

theorem connect_after_finally_orphans_link:
  assumes "reach rs a w" "tasks w t = Some tk" "pc tk = Await_Connect h" "\<not> cancelling tk"
    "client w = None"
  shows "\<exists>w'. step rs w (Connect_Done t Connected_Ok) = Some w' \<and>
           links w' h = Link_Open \<and> client w' = None \<and> \<not> available w' \<and>
           connect_lock w' = None \<and> tasks w' t = None \<and> retry_task w' = Some (next_id w) \<and>
           tasks w' (next_id w) = Some \<lparr>pc = Start_Retry, cancelling = False\<rparr>"
proof -
  have "\<forall>n\<ge>next_id w. tasks w n = None"
    using reach_inv [OF assms(1)] by (simp add: inv_def fresh_inv_def)
  then have "t < next_id w" using assms(2) by (rule fresh_keyD)
  with assms(2-5) show ?thesis by (simp add: sensor_defs split: option.splits)
qed

theorem connect_after_finally_orphans_link_witness:
  "let w = the (run sensor_globals_read_stable (sensor_init ''A'')
                 ([Host_Update, Connect_Done 0 Connected_Ok, Notify_Done 0 True] @
                  replicate 60 Tick @
                  [Fire 2, Run 3, Link_Down 1, Host_Update, Disconnect_Done 3 True]))
   in reach sensor_globals_read_stable ''A'' w \<and>
      tasks w 4 = Some \<lparr>pc = Await_Connect 5, cancelling = False\<rparr> \<and> client w = None \<and>
      (\<exists>w'. step sensor_globals_read_stable w (Connect_Done 4 Connected_Ok) = Some w' \<and>
           links w' 5 = Link_Open \<and> client w' = None \<and> \<not> available w' \<and>
           connect_lock w' = None \<and> tasks w' 4 = None \<and> retry_task w' = Some (next_id w) \<and>
           tasks w' (next_id w) = Some \<lparr>pc = Start_Retry, cancelling = False\<rparr>)"
proof -
  define w where "w = the (run sensor_globals_read_stable (sensor_init ''A'')
                 ([Host_Update, Connect_Done 0 Connected_Ok, Notify_Done 0 True] @
                  replicate 60 Tick @
                  [Fire 2, Run 3, Link_Down 1, Host_Update, Disconnect_Done 3 True]))"
  have run: "run sensor_globals_read_stable (sensor_init ''A'')
               ([Host_Update, Connect_Done 0 Connected_Ok, Notify_Done 0 True] @
                replicate 60 Tick @
                [Fire 2, Run 3, Link_Down 1, Host_Update, Disconnect_Done 3 True]) = Some w"
    by (simp add: w_def run_append run_ticks sensor_defs)
  then have r: "reach sensor_globals_read_stable ''A'' w" by (rule run_reach) (rule reach_init)
  have t: "tasks w 4 = Some \<lparr>pc = Await_Connect 5, cancelling = False\<rparr>" "client w = None"
    by (simp_all add: w_def run_append run_ticks sensor_defs)
  have "\<exists>w'. step sensor_globals_read_stable w (Connect_Done 4 Connected_Ok) = Some w' \<and>
           links w' 5 = Link_Open \<and> client w' = None \<and> \<not> available w' \<and>
           connect_lock w' = None \<and> tasks w' 4 = None \<and> retry_task w' = Some (next_id w) \<and>
           tasks w' (next_id w) = Some \<lparr>pc = Start_Retry, cancelling = False\<rparr>"
    by (rule connect_after_finally_orphans_link [OF r t(1) _ _ t(2)]) simp_all
  then show ?thesis unfolding Let_def w_def [symmetric] using r t by (intro conjI)
qed

end
