(* ===== verification/Sensor_Refinement.thy ===== *)
theory Sensor_Refinement
  imports Sensor_Invariants
begin

text \<open>
  The spec describes the connection manager by a state machine over
  \<open>ConnectionState = Disconnected | Connecting | Connected | AwaitingRetry\<close> (spec,
  sections 3 and 4.2). \<open>conn_state_of\<close> reads that state off the model: connecting
  while a task holds \<open>_connect_lock\<close>; connected when \<open>self._client\<close> is connected;
  awaiting a retry while the task stored in \<open>_retry_task\<close> is pending and not being
  cancelled; disconnected otherwise. The refinement theorem shows that every step of the
  loop from a reachable state either leaves this abstract state unchanged or is a
  transition of the spec's table, with one transition the table lacks.
\<close>

text \<open>The spec's \<open>ConnectionState\<close>.\<close>

datatype conn_state = Disconnected | Connecting | Connected | AwaitingRetry

text \<open>The task in \<open>_retry_task\<close> has not run \<open>async_update\<close> yet and is not being cancelled.\<close>

definition retry_pending :: "world \<Rightarrow> bool" where
  "retry_pending w =
     (case retry_task w of None \<Rightarrow> False
      | Some r \<Rightarrow> (case tasks w r of None \<Rightarrow> False
                   | Some tk \<Rightarrow> is_retry_pc (pc tk) \<and> \<not> cancelling tk))"

definition conn_state_of :: "world \<Rightarrow> conn_state" where
  "conn_state_of w =
     (if connect_lock w \<noteq> None then Connecting
      else if client_connected w then Connected
      else if retry_pending w then AwaitingRetry
      else Disconnected)"

text \<open>
  The transitions of the spec's table (section 4.2). The row "any state, explicit
  teardown" allows every state to become \<open>Disconnected\<close>. The last rule is not in
  the table: a retry scheduled by an earlier failure can still be pending when the
  connection made meanwhile goes down.
\<close>

inductive conn_trans :: "conn_state \<Rightarrow> conn_state \<Rightarrow> bool" where
  ensure_connected: "conn_trans Disconnected Connecting"
| connect_succeeded: "conn_trans Connecting Connected"
| connect_failed_retry: "conn_trans Connecting AwaitingRetry"
| retry_fired: "conn_trans AwaitingRetry Connecting"
| teardown: "conn_trans s Disconnected"
| dropped_retry_pending: "conn_trans Connected AwaitingRetry"

subsection \<open>How each step moves the abstract state\<close>

text \<open>The lock is taken only when the client is not connected (lines 96 and 164).\<close>

lemma step_lock_taken:
  assumes "step rs w e = Some w'" "connect_lock w = None" "connect_lock w' \<noteq> None"
  shows "\<not> client_connected w"
  using assms
  by (cases e)
     (auto simp: sensor_defs split: option.splits if_splits pc.splits sum.splits
                 connect_result.splits)

text \<open>The completion of an awaited connection or subscription is the lock holder's.\<close>

lemma connect_done_locked:
  assumes "lock_inv w" "step rs w (Connect_Done t r) = Some w'"
  shows "connect_lock w = Some t"
proof -
  from assms(2) obtain tk h where "tasks w t = Some tk" "pc tk = Await_Connect h"
    by (auto simp: await_done_def split: option.splits if_splits pc.splits)
  with assms(1) show ?thesis by (auto intro: lock_inv_in_connect)
qed

lemma notify_done_locked:
  assumes "lock_inv w" "step rs w (Notify_Done t ok) = Some w'"
  shows "connect_lock w = Some t"
proof -
  from assms(2) obtain tk h where "tasks w t = Some tk" "pc tk = Await_Notify h"
    by (auto simp: await_done_def split: option.splits if_splits pc.splits)
  with assms(1) show ?thesis by (auto intro: lock_inv_in_connect)
qed

lemma step_connected_from:
  assumes "lock_inv w" "step rs w e = Some w'" "client_connected w'"
  shows "client_connected w \<or> connect_lock w \<noteq> None"
proof (cases e)
  case (Connect_Done t r)
  with assms(1,2) show ?thesis by (auto dest: connect_done_locked)
next
  case (Notify_Done t ok)
  with assms(1,2) show ?thesis by (auto dest: notify_done_locked)
qed (use assms(2,3) in \<open>auto simp: sensor_defs split: option.splits if_splits pc.splits sum.splits\<close>)

lemma step_retry_from:
  assumes "lock_inv w" "step rs w e = Some w'" "retry_pending w'"
  shows "retry_pending w \<or> connect_lock w \<noteq> None"
proof (cases e)
  case (Connect_Done t r)
  with assms(1,2) show ?thesis by (auto dest: connect_done_locked)
next
  case (Notify_Done t ok)
  with assms(1,2) show ?thesis by (auto dest: notify_done_locked)
qed (use assms(2,3) in \<open>auto simp: retry_pending_def sensor_defs
        split: option.splits if_splits pc.splits sum.splits\<close>)

subsection \<open>Refinement of the spec's state machine\<close>

lemma conn_state_init [simp]: "conn_state_of (sensor_init a) = Disconnected"
  by (simp add: conn_state_of_def retry_pending_def sensor_defs)

text \<open>
  C25. Refinement of the spec's connection state machine: from every reachable state,
  each event of the loop leaves the abstract \<open>ConnectionState\<close> unchanged or moves it
  along a transition of \<open>conn_trans\<close>. In particular a client never becomes connected
  without the connect sequence, a retry is only scheduled from within it, and the lock
  is never taken while the client is connected.
\<close>

theorem step_refines_conn_spec:
  assumes "reach rs a w" "step rs w e = Some w'"
  shows "conn_state_of w' = conn_state_of w \<or> conn_trans (conn_state_of w) (conn_state_of w')"
proof -
  have L: "lock_inv w" using reach_inv [OF assms(1)] by (simp add: inv_def)
  have c: "connect_lock w = None \<Longrightarrow> connect_lock w' \<noteq> None \<Longrightarrow> \<not> client_connected w"
    using assms(2) by (rule step_lock_taken)
  have d: "client_connected w' \<Longrightarrow> client_connected w \<or> connect_lock w \<noteq> None"
    using L assms(2) by (rule step_connected_from)
  have r: "retry_pending w' \<Longrightarrow> retry_pending w \<or> connect_lock w \<noteq> None"
    using L assms(2) by (rule step_retry_from)
  show ?thesis
    unfolding conn_state_of_def using c d r by (auto intro: conn_trans.intros)
qed

theorem step_refines_conn_spec_witness:
  "let w = the (run sensor_globals_read_stable (sensor_init ''A'') [Host_Update]);
       w' = the (step sensor_globals_read_stable w (Connect_Done 0 Connect_Timeout))
   in reach sensor_globals_read_stable ''A'' w \<and>
      step sensor_globals_read_stable w (Connect_Done 0 Connect_Timeout) = Some w' \<and>
      conn_state_of w = Connecting \<and> conn_state_of w' = AwaitingRetry \<and>
      (conn_state_of w' = conn_state_of w \<or> conn_trans (conn_state_of w) (conn_state_of w'))"
proof -
  define w where "w = the (run sensor_globals_read_stable (sensor_init ''A'') [Host_Update])"
  define w' where "w' = the (step sensor_globals_read_stable w (Connect_Done 0 Connect_Timeout))"
  have run: "run sensor_globals_read_stable (sensor_init ''A'') [Host_Update] = Some w"
    by (simp add: w_def sensor_defs)
  then have r: "reach sensor_globals_read_stable ''A'' w" by (rule run_reach) (rule reach_init)
  have s: "step sensor_globals_read_stable w (Connect_Done 0 Connect_Timeout) = Some w'"
    by (simp add: w_def w'_def sensor_defs)
  have a: "conn_state_of w = Connecting" "conn_state_of w' = AwaitingRetry"
    by (simp_all add: w_def w'_def conn_state_of_def retry_pending_def sensor_defs)
  have "conn_state_of w' = conn_state_of w \<or> conn_trans (conn_state_of w) (conn_state_of w')"
    by (rule step_refines_conn_spec [OF r s])
  then show ?thesis unfolding Let_def w_def [symmetric] w'_def [symmetric] using r s a
    by (intro conjI)
qed

text \<open>
  C26. The transition the spec's table lacks is taken: after a failed attempt has
  scheduled a retry, the host connects again before the retry runs; when that connection
  drops, the manager goes from \<open>Connected\<close> straight to \<open>AwaitingRetry\<close>.
\<close>

theorem connected_to_awaiting_retry:
  "let es = [Host_Update, Connect_Done 0 Connect_Timeout, Host_Update,
             Connect_Done 3 Connected_Ok, Notify_Done 3 True];
       w = the (run rs (sensor_init a) es)
   in run rs (sensor_init a) es = Some w \<and> conn_state_of w = Connected \<and>
      step rs w (Link_Down 4) = Some (w\<lparr>links := (links w)(4 := Link_Closed)\<rparr>) \<and>
      conn_state_of (w\<lparr>links := (links w)(4 := Link_Closed)\<rparr>) = AwaitingRetry"
  by (simp add: conn_state_of_def retry_pending_def sensor_defs)

text \<open>
  C27. The client is created without a disconnect callback (line 100), so the sensor does
  not notice a link the device drops: it is abstractly \<open>Disconnected\<close> but still
  reports itself available, and stays so until the next \<open>async_update\<close>.
\<close>

theorem available_while_disconnected:
  "let es = [Host_Update, Connect_Done 0 Connected_Ok, Notify_Done 0 True, Link_Down 1];
       w = the (run rs (sensor_init a) es)
   in run rs (sensor_init a) es = Some w \<and> conn_state_of w = Disconnected \<and> available w"
  by (simp add: conn_state_of_def retry_pending_def sensor_defs)

end
