(* ===== verification/Sensor_Progress.thy ===== *)
theory Sensor_Progress
  imports Sensor_Behaviour
begin

text \<open>
  Termination of the sensor's coroutines. No method of \<open>SenssunScaleSensor\<close> has a
  loop; a coroutine can only be kept from ending by an \<open>await\<close> that never
  completes. The theorem of this theory shows that none is stuck: from every reachable
  state, a run of the loop in which the transport answers successfully completes every
  pending task and frees the lock. The run is built by well-founded induction on
  \<open>work\<close>: the sum over the pending tasks of how many resumptions each still needs
  (\<open>pc_weight\<close>), plus \<open>retry_debt\<close>, the retry task that a connection bound to fail
  at line 105 will create. It advances the holder of the lock first, and otherwise any
  task.
\<close>

text \<open>How many resumptions a task suspended at a point needs at most, when the transport succeeds.\<close>

fun pc_weight :: "pc \<Rightarrow> nat" where
  "pc_weight Start_Retry = 5"
| "pc_weight Start_Update = 4"
| "pc_weight (Sleeping _) = 4"
| "pc_weight Wait_Lock = 3"
| "pc_weight (Await_Connect _) = 2"
| "pc_weight Start_Disconnect = 2"
| "pc_weight (Await_Notify _) = 1"
| "pc_weight (Await_Disconnect _) = 1"

text \<open>A task being cancelled ends at its next resumption.\<close>

definition task_weight :: "task \<Rightarrow> nat" where
  "task_weight tk = (if cancelling tk then 1 else pc_weight (pc tk))"

text \<open>The work left in the loop.\<close>

definition pending :: "world \<Rightarrow> nat" where
  "pending w = map_weight task_weight (tasks w) (next_id w)"

text \<open>
  The holder of the lock awaits a connection while \<open>self._client\<close> has been cleared:
  line 105 will raise and the \<open>except\<close> clauses create a retry task, whose resumptions
  are counted in advance.
\<close>

definition retry_debt :: "world \<Rightarrow> nat" where
  "retry_debt w =
     (case connect_lock w of
        None \<Rightarrow> 0
      | Some h \<Rightarrow>
          (case tasks w h of
             None \<Rightarrow> 0
           | Some tk \<Rightarrow>
               (case pc tk of
                  Await_Connect _ \<Rightarrow> (if \<not> cancelling tk \<and> client w = None then 6 else 0)
                | _ \<Rightarrow> 0)))"

definition work :: "world \<Rightarrow> nat" where
  "work w = pending w + retry_debt w"

text \<open>
  Task \<open>t\<close>, which was \<open>tk\<close>, has finished or moved to a lighter point; no other task
  changed, and no failure at line 105 is in prospect.
\<close>

definition advanced :: "nat \<Rightarrow> task \<Rightarrow> world \<Rightarrow> world \<Rightarrow> bool" where
  "advanced t tk w w' \<longleftrightarrow>
     tasks w' = (tasks w)(t := tasks w' t) \<and>
     (case tasks w' t of None \<Rightarrow> True | Some tk' \<Rightarrow> task_weight tk' < task_weight tk) \<and>
     retry_debt w' = 0"

lemma step_next_id_mono: "step rs w e = Some w' \<Longrightarrow> next_id w \<le> next_id w'"
  by (cases e)
     (auto simp: sensor_defs split: option.splits if_splits pc.splits sum.splits
                 connect_result.splits)

lemma run_next_id_mono: "run rs w es = Some w' \<Longrightarrow> next_id w \<le> next_id w'"
proof (induction es arbitrary: w)
  case Nil
  then show ?case by simp
next
  case (Cons e es)
  then obtain w1 where "step rs w e = Some w1" "run rs w1 es = Some w'"
    by (auto split: option.splits)
  with Cons.IH show ?case by (fastforce dest: step_next_id_mono)
qed

subsection \<open>The measure decreases\<close>

lemma pc_weight_pos: "0 < pc_weight p"
  by (cases p) simp_all

lemma task_weight_pos: "0 < task_weight tk"
  by (simp add: task_weight_def pc_weight_pos)

lemma advanced_work:
  assumes "reach rs a w" "tasks w t = Some tk" "advanced t tk w w'" "next_id w \<le> next_id w'"
  shows "work w' < work w"
proof -
  have fresh: "\<forall>n\<ge>next_id w. tasks w n = None"
    using reach_inv [OF assms(1)] by (simp add: inv_def fresh_inv_def)
  have t: "t < next_id w" using fresh assms(2) by (rule fresh_keyD)
  have eq: "tasks w' = (tasks w)(t := tasks w' t)" using assms(3) by (simp add: advanced_def)
  have other: "\<And>n. n \<noteq> t \<Longrightarrow> tasks w' n = tasks w n" using eq by (metis fun_upd_other)
  have "map_weight task_weight (tasks w') (next_id w') = map_weight task_weight (tasks w') (next_id w)"
    using assms(4) by (rule map_weight_extend) (use fresh t other in auto)
  moreover have "map_weight task_weight ((tasks w)(t := tasks w' t)) (next_id w) + task_weight tk =
                   map_weight task_weight (tasks w) (next_id w) +
                   (case tasks w' t of None \<Rightarrow> 0 | Some y \<Rightarrow> task_weight y)"
    using t assms(2) by (rule map_weight_upd)
  then have "map_weight task_weight (tasks w') (next_id w) + task_weight tk =
               map_weight task_weight (tasks w) (next_id w) +
               (case tasks w' t of None \<Rightarrow> 0 | Some y \<Rightarrow> task_weight y)"
    unfolding eq [symmetric] .
  moreover have "(case tasks w' t of None \<Rightarrow> 0 | Some y \<Rightarrow> task_weight y) < task_weight tk"
    using assms(3) task_weight_pos [of tk] by (simp add: advanced_def split: option.splits)
  moreover have "retry_debt w' = 0" using assms(3) by (simp add: advanced_def)
  ultimately show ?thesis by (simp add: work_def pending_def)
qed

subsection \<open>Each pending task can advance\<close>

lemma advance_cancelled:
  assumes "tasks w t = Some tk" "cancelling tk" "connect_lock w = None \<or> connect_lock w = Some t"
  shows "run rs w [Run t] = Some (task_cancelled t (pc tk) w) \<and>
         advanced t tk w (task_cancelled t (pc tk) w)"
  using assms
  by (cases "pc tk")
     (auto simp: run_task_def advanced_def task_cancelled_def disconnect_finally_def
                 finish_def fun_upd_idem_iff retry_debt_def)

lemma advance_update:
  assumes "connect_lock w = None" "tasks w t = Some tk" "\<not> cancelling tk"
    "pc tk = Start_Update \<or> pc tk = Wait_Lock \<or> (\<exists>d. pc tk = Sleeping d)"
  shows "advanced t tk w (async_update t w)" "advanced t tk w (connect_locked t (w\<lparr>connect_lock := Some t\<rparr>))"
  using assms
  by (auto simp: advanced_def task_weight_def async_update_def connect_enter_def connect_locked_def
                 finish_def set_pc_def fun_eq_iff Let_def client_connected_def is_connected_def
                 retry_debt_def
           split: option.splits)

lemma advanced_tasks_eq: "tasks w1 = tasks w \<Longrightarrow> advanced t tk w1 w' = advanced t tk w w'"
  by (simp add: advanced_def)

lemma advance_by_run:
  assumes "connect_lock w = None" "tasks w t = Some tk" "\<not> cancelling tk"
    "pc tk \<in> {Start_Update, Wait_Lock, Start_Retry, Start_Disconnect}"
  shows "\<exists>w'. run rs w [Run t] = Some w' \<and> advanced t tk w w'"
proof -
  note upd = advance_update [OF assms(1-3)]
  have "run rs w [Run t] = run_task t tk w" using assms(2) by (simp split: option.splits)
  moreover have "pc tk = Start_Retry \<Longrightarrow> advanced t tk w (retry_started t w)"
    using assms(1-3)
    by (simp add: advanced_def retry_started_def set_pc_def task_weight_def fun_eq_iff retry_debt_def)
  moreover have "pc tk = Start_Disconnect \<Longrightarrow> advanced t tk w (disconnect_begin t w)"
    using assms(1-3)
    by (auto simp: advanced_def disconnect_begin_def disconnect_finally_def finish_def
                   set_pc_def task_weight_def fun_eq_iff retry_debt_def split: option.splits)
  ultimately show ?thesis
    using assms(1,3,4) upd by (auto simp: run_task_def)
qed

lemma advance_sleeping:
  assumes "connect_lock w = None" "tasks w t = Some tk" "\<not> cancelling tk" "pc tk = Sleeping d"
  shows "\<exists>es w'. run rs w es = Some w' \<and> advanced t tk w w'"
proof -
  define w1 where "w1 = w\<lparr>now := now w + (d - now w)\<rparr>"
  have "run rs w (replicate (d - now w) Tick @ [Run t]) = Some (async_update t w1)"
    using assms(2-4) by (simp add: run_append run_ticks run_task_def w1_def)
  moreover have "advanced t tk w1 (async_update t w1)"
    using advance_update(1) [of w1 t tk] assms by (simp add: w1_def)
  ultimately show ?thesis using advanced_tasks_eq [of w1 w t tk] by (auto simp: w1_def)
qed

lemma advance_free:
  assumes "reach rs a w" "connect_lock w = None" "tasks w t = Some tk"
  shows "\<exists>es w'. run rs w es = Some w' \<and> advanced t tk w w'"
proof (cases "cancelling tk")
  case True
  then show ?thesis using advance_cancelled [OF assms(3) True] assms(2) by blast
next
  case False
  have L: "lock_inv w" using reach_inv [OF assms(1)] by (simp add: inv_def)
  show ?thesis
  proof (cases "pc tk")
    case (Sleeping d)
    then show ?thesis using advance_sleeping [OF assms(2,3) False] by blast
  next
    case (Await_Disconnect h)
    with assms(3) False have "run rs w [Disconnect_Done t False] = Some (disconnect_finally t w)"
      by (simp add: await_done_def)
    moreover have "advanced t tk w (disconnect_finally t w)"
      using assms(2) by (simp add: advanced_def disconnect_finally_def finish_def fun_eq_iff retry_debt_def)
    ultimately show ?thesis by blast
  next
    case (Await_Connect c)
    with L assms(2,3) show ?thesis by (auto dest: lock_inv_in_connect)
  next
    case (Await_Notify c)
    with L assms(2,3) show ?thesis by (auto dest: lock_inv_in_connect)
  qed (use advance_by_run [OF assms(2,3) False, of rs] in blast)+
qed

text \<open>
  The failure at line 105: the retry task it creates costs less than the debt paid off,
  every other task keeps or loses weight.
\<close>

lemma work_connect_failed:
  assumes "reach rs a w" "connect_lock w = Some h" "tasks w h = Some tk" "\<not> cancelling tk"
    "pc tk = Await_Connect c" "client w = None"
  shows "work (connect_resumed h c Connected_Ok w) < work w"
proof -
  let ?w' = "connect_resumed h c Connected_Ok w"
  let ?g = "\<lambda>m k. case m k of None \<Rightarrow> 0 | Some v \<Rightarrow> task_weight v"
  have fresh: "\<forall>n\<ge>next_id w. tasks w n = None"
    using reach_inv [OF assms(1)] by (simp add: inv_def fresh_inv_def)
  have h: "h < next_id w" using fresh assms(3) by (rule fresh_keyD)
  have ids: "next_id ?w' = Suc (next_id w)"
    using assms(6) by (simp add: sensor_defs split: option.splits)
  have new: "tasks ?w' (next_id w) = Some \<lparr>pc = Start_Retry, cancelling = False\<rparr>"
    using assms(6) h by (simp add: sensor_defs split: option.splits)
  have le: "?g (tasks ?w') k \<le> ?g (tasks w) k" if "k < next_id w" for k
    using assms(6) that pc_weight_pos
    by (auto simp: sensor_defs task_weight_def Suc_le_eq split: option.splits)
  have "pending ?w' = map_weight task_weight (tasks ?w') (next_id w) + 5"
    unfolding pending_def ids map_weight_Suc new by (simp add: task_weight_def)
  also have "\<dots> \<le> pending w + 5"
    unfolding pending_def using le by (simp add: map_weight_mono)
  finally have "pending ?w' \<le> pending w + 5" .
  moreover have "retry_debt ?w' = 0"
    using assms(6) by (simp add: sensor_defs retry_debt_def)
  moreover have "retry_debt w = 6" using assms(2-6) by (simp add: retry_debt_def)
  ultimately show ?thesis by (simp add: work_def)
qed

lemma advance_holder:
  assumes "reach rs a w" "connect_lock w = Some h"
  shows "\<exists>es w'. run rs w es = Some w' \<and> work w' < work w"
proof -
  have "lock_inv w" using reach_inv [OF assms(1)] by (simp add: inv_def)
  then obtain tk where tk: "tasks w h = Some tk" "in_connect (pc tk)"
    using assms(2) by (blast dest: lock_inv_holder)
  have adv: "\<exists>es w'. run rs w es = Some w' \<and> work w' < work w"
    if "run rs w es = Some w'" "advanced h tk w w'" for es w'
    using that advanced_work [OF assms(1) tk(1) that(2) run_next_id_mono [OF that(1)]] by blast
  show ?thesis
  proof (cases "cancelling tk")
    case True
    then show ?thesis using advance_cancelled [OF tk(1) True] assms(2) adv by blast
  next
    case False
    show ?thesis
    proof (cases "pc tk")
      case (Await_Connect c)
      with tk(1) False have r: "run rs w [Connect_Done h Connected_Ok] =
                                  Some (connect_resumed h c Connected_Ok w)"
        by (simp add: await_done_def)
      show ?thesis
      proof (cases "client w")
        case None
        with r work_connect_failed [OF assms tk(1) False Await_Connect] show ?thesis by blast
      next
        case (Some c')
        have "advanced h tk w (connect_resumed h c Connected_Ok w)"
          using tk(1) False Await_Connect Some assms(2)
          by (simp add: advanced_def connect_resumed_def set_pc_def task_weight_def fun_eq_iff
                        retry_debt_def)
        with r show ?thesis by (rule adv)
      qed
    next
      case (Await_Notify c)
      with tk(1) False have "run rs w [Notify_Done h True] = Some (notify_resumed h c True w)"
        by (simp add: await_done_def)
      moreover have "advanced h tk w (notify_resumed h c True w)"
        by (simp add: advanced_def notify_resumed_def call_later_def finish_def Let_def fun_eq_iff
                      retry_debt_def)
      ultimately show ?thesis by (rule adv)
    qed (use tk(2) in simp_all)
  qed
qed

subsection \<open>Every coroutine completes\<close>

text \<open>
  C31. Termination of the coroutines: from every reachable state there is a run of the
  loop after which no task of the sensor is pending and \<open>_connect_lock\<close> is free. No
  task waits forever on the lock or on another task: \<open>connect\<close>, \<open>_retry_connect\<close>,
  \<open>_disconnect\<close> and the host's calls all run to their end.
\<close>

theorem tasks_complete:
  assumes "reach rs a w"
  shows "\<exists>es w'. run rs w es = Some w' \<and> tasks w' = Map.empty \<and> connect_lock w' = None"
  using assms
proof (induction "work w" arbitrary: w rule: less_induct)
  case less
  show ?case
  proof (cases "tasks w = Map.empty")
    case True
    have "lock_inv w" using reach_inv [OF less.prems] by (simp add: inv_def)
    with True have "connect_lock w = None"
      by (cases "connect_lock w") (simp_all add: lock_inv_def)
    with True show ?thesis by (intro exI [of _ "[]"]) simp
  next
    case False
    have "\<exists>es w1. run rs w es = Some w1 \<and> work w1 < work w"
    proof (cases "connect_lock w")
      case None
      from False obtain t tk where tk: "tasks w t = Some tk" by (auto simp: fun_eq_iff)
      then obtain es w1 where r: "run rs w es = Some w1" and "advanced t tk w w1"
        using advance_free [OF less.prems None tk] by blast
      with tk show ?thesis using advanced_work [OF less.prems tk] run_next_id_mono [OF r] by blast
    next
      case (Some h)
      with advance_holder [OF less.prems Some] show ?thesis by blast
    qed
    then obtain es w1 where r: "run rs w es = Some w1" and "work w1 < work w" by blast
    moreover have "reach rs a w1" using r less.prems by (rule run_reach)
    ultimately obtain es2 w2 where "run rs w1 es2 = Some w2" "tasks w2 = Map.empty"
      "connect_lock w2 = None" using less.hyps by blast
    with r show ?thesis by (intro exI [of _ "es @ es2"]) (simp add: run_append)
  qed
qed

theorem tasks_complete_witness:
  "let w = the (run sensor_globals_read_stable (sensor_init ''A'')
                 [Host_Update, Host_Update, Connect_Done 0 Connect_Timeout])
   in reach sensor_globals_read_stable ''A'' w \<and>
      tasks w 2 = Some \<lparr>pc = Wait_Lock, cancelling = False\<rparr> \<and>
      tasks w 3 = Some \<lparr>pc = Start_Retry, cancelling = False\<rparr> \<and>
      (\<exists>es w'. run sensor_globals_read_stable w es = Some w' \<and> tasks w' = Map.empty \<and>
               connect_lock w' = None)"
proof -
  define w where "w = the (run sensor_globals_read_stable (sensor_init ''A'')
                 [Host_Update, Host_Update, Connect_Done 0 Connect_Timeout])"
  have run: "run sensor_globals_read_stable (sensor_init ''A'')
                 [Host_Update, Host_Update, Connect_Done 0 Connect_Timeout] = Some w"
    by (simp add: w_def sensor_defs)
  then have r: "reach sensor_globals_read_stable ''A'' w" by (rule run_reach) (rule reach_init)
  have t: "tasks w 2 = Some \<lparr>pc = Wait_Lock, cancelling = False\<rparr>"
    "tasks w 3 = Some \<lparr>pc = Start_Retry, cancelling = False\<rparr>"
    by (simp_all add: w_def sensor_defs)
  show ?thesis unfolding Let_def w_def [symmetric]
    using r t tasks_complete [OF r] by blast
qed

end
