(* ===== verification/Host.thy ===== *)
theory Host
  imports Sensor
begin

text \<open>
  The integration's interface to Home Assistant. \<open>async_setup_entry\<close> (lines 15--20)
  reads the device address from the config entry, constructs the sensor and registers it
  with \<open>async_add_entities([scale], True)\<close>. The flag \<open>True\<close> (update before add) makes the
  host call \<open>async_update\<close> before it adds the entity and calls
  \<open>async_added_to_hass\<close> once that update has returned. The model returns the
  constructed sensor; the host's calls are the events \<open>Host_Update\<close> and
  \<open>Host_Added\<close> of the loop, which a run schedules (the update first, its task
  finished, then the added hook). The properties of lines 37--55, which return the
  attributes set at lines 26--29, are what the host reads of the entity, gathered in
  the record \<open>ha_entity\<close>.
\<close>

text \<open>\<open>config_entry.data\<close>, a dictionary of strings.\<close>

type_synonym config_data = "string \<rightharpoonup> string"

text \<open>
  \<open>async_setup_entry\<close>: \<open>config_entry.data["address"]\<close> raises \<open>KeyError\<close> when the
  entry has no address; otherwise the sensor constructed at line 19, handed to
  \<open>async_add_entities\<close> at line 20.
\<close>

definition async_setup_entry :: "config_data \<Rightarrow> py_error + world" where
  "async_setup_entry data =
     (case data ''address'' of
        None \<Rightarrow> Inl KeyError
      | Some addr \<Rightarrow> Inr (sensor_init addr))"

text \<open>What the host reads of the entity: \<open>name\<close>, \<open>unique_id\<close>, \<open>state\<close>,
  \<open>unit_of_measurement\<close> (\<open>UnitOfMass.GRAMS\<close>, the string \<open>"g"\<close>) and \<open>available\<close>.\<close>

record ha_entity =
  ent_name :: string
  ent_unique_id :: string
  ent_state :: "int option"
  ent_unit :: string
  ent_available :: bool

definition entity_view :: "world \<Rightarrow> ha_entity" where
  "entity_view w =
     \<lparr>ent_name = attr_name w, ent_unique_id = attr_unique_id w,
      ent_state = state w, ent_unit = ''g'', ent_available = available w\<rparr>"

subsection \<open>Setting up the entry\<close>

text \<open>
  C32. A config entry without an address makes \<open>async_setup_entry\<close> raise
  \<open>KeyError\<close> at line 17: no sensor is constructed and no entity is added.
\<close>

theorem setup_entry_no_address:
  assumes "data ''address'' = None"
  shows "async_setup_entry data = Inl KeyError"
  using assms by (simp add: async_setup_entry_def)

theorem setup_entry_no_address_witness:
  "(Map.empty :: config_data) ''address'' = None \<and>
   async_setup_entry Map.empty = Inl KeyError"
proof -
  have h: "(Map.empty :: config_data) ''address'' = None" by simp
  show ?thesis using h setup_entry_no_address [OF h] by simp
qed

end
