(* ===== verification/Spec2Isabelle.thy ===== *)
theory Spec2Isabelle
  imports Sensor_Defects Sensor_Refinement Sensor_Progress Host
begin

text \<open>
  \<^bold>\<open>A verification library for \<open>src/sensor.py\<close>\<close>, the Home Assistant integration
  for a Senssun BLE body scale. The program has two parts: the payload decoder
  (\<open>read_stable\<close>, \<open>SenssunScaleSensor.decode_weight\<close>), a pure function from the bytes
  of one BLE notification to an optional weight; and the connection manager, the methods
  of \<open>SenssunScaleSensor\<close> that connect to the scale, subscribe to its notifications,
  retry failed connections and disconnect after a minute without traffic. They interact
  in \<open>notification_handler\<close>, which calls the decoder and updates the manager's state.

  \<^bold>\<open>Theories.\<close>
  \<^item> \<open>Prelude\<close>: bytes as \<open>8 word\<close>, the Python exceptions of the code
    (\<open>py_error\<close>), Python's slice, the two's complement read of \<open>struct\<close>
    (\<open>twos\<close>, equal to the library's \<open>sint\<close>), \<open>int(bool)\<close>; facts on bit masks, on
    \<open>word_cat\<close>, and on the set views \<open>with_prop\<close> and \<open>keys_with\<close> of maps used to
    state invariants.
  \<^item> \<open>Decoder\<close>: \<open>unpack_bhhb\<close> (\<open>struct.unpack(">bhhb", ...)\<close> at line 67),
    \<open>be_int16\<close>, \<open>read_stable\<close> (lines 57--59), \<open>decode_weight\<close> (lines 61--78).
    The bare call \<open>read_stable(ctr1)\<close> at line 70 is resolved through a parameter: the
    global binding of the name, \<open>sensor_globals_read_stable = None\<close> as the file is
    written (the function is a class attribute, so the call raises \<open>NameError\<close>), or
    \<open>Some read_stable\<close>, the binding the author meant. Every theorem says which one
    it assumes. \<open>decode_weight_word\<close> is a reference decoder over words.
  \<^item> \<open>Sensor\<close>: the manager and its world. The record \<open>sensor\<close> holds the attributes of
    \<open>__init__\<close> (lines 23--35), \<open>hass\<close> apart. \<open>world\<close> adds what the asyncio loop and the BLE
    transport hold: the state of every \<open>BleakClient\<close> created (\<open>links\<close>), the tasks
    with the \<open>await\<close> each is suspended at (\<open>pc\<close>), the \<open>call_later\<close> timers,
    the clock in seconds and a counter of fresh object identities. One definition per method:
    \<^item> \<open>async_update\<close>, \<open>async_added_to_hass\<close>;
    \<^item> \<open>connect\<close>, cut at its awaits into \<open>connect_enter\<close>, \<open>connect_locked\<close>,
      \<open>connect_resumed\<close>, \<open>notify_resumed\<close> and \<open>connect_failed\<close>. Every read of
      \<open>self._client\<close> reads the attribute when the line runs: \<open>connect_resumed\<close> calls
      \<open>start_notify\<close> on the client stored at line 105, and takes the \<open>except\<close>
      clauses when a \<open>_disconnect\<close> has cleared it meanwhile (\<open>AttributeError\<close>).
      Waiters on \<open>_connect_lock\<close> are not queued in order: any waiter may take a
      free lock, which covers asyncio's first-come order;
    \<^item> \<open>schedule_retry\<close>, \<open>retry_started\<close>;
    \<^item> \<open>disconnect\<close>, \<open>disconnect_begin\<close>, \<open>disconnect_finally\<close>;
    \<^item> \<open>will_remove\<close>, \<open>notification_handler\<close>, and \<open>task_cancelled\<close> for a
      \<open>CancelledError\<close> delivered at an await.

    \<open>step rs w e\<close> is the effect of one loop event (a host call, a task resuming, a
    transport call completing, a timer firing, a notification, the link dropping, one
    second passing), \<open>None\<close> when the event is not enabled. \<open>run\<close> folds it over an
    event list and \<open>reach\<close> is the set of states reachable from \<open>sensor_init\<close>.
  \<^item> \<open>Sensor_Invariants\<close>: the invariant \<open>inv\<close> (fresh identities, lock held
    exactly by the task inside the connect sequence, only the awaited client connecting,
    every live retry task the one in \<open>_retry_task\<close>), kept by every step and run.
  \<^item> \<open>Sensor_Behaviour\<close>: each handler on each branch, error paths included.
  \<^item> \<open>Sensor_Lifecycle\<close>: the reported weight, the teardown, and liveness of the idle
    disconnect and of the retry.
  \<^item> \<open>Sensor_Defects\<close>: explicit runs that exhibit the defects found.
  \<^item> \<open>Sensor_Refinement\<close>: the spec's \<open>ConnectionState\<close> machine (section 4.2) as the
    relation \<open>conn_trans\<close>, the abstraction \<open>conn_state_of\<close>, and the refinement
    theorem that every step is a stutter or an abstract transition.
  \<^item> \<open>Sensor_Progress\<close>: termination of the coroutines, by a measure on the pending
    tasks.
  \<^item> \<open>Host\<close>: the interface to Home Assistant. \<open>async_setup_entry\<close> (lines 15--20)
    reads the address from the config entry (a map from strings to strings) or raises
    \<open>KeyError\<close>, and returns the constructed sensor. The calls the host then makes
    (\<open>async_update\<close>, and once it has returned \<open>async_added_to_hass\<close>) are the events
    \<open>Host_Update\<close> and \<open>Host_Added\<close> of the loop. \<open>entity_view\<close> is what the host
    reads through the properties (lines 37--55): the attributes stored by the constructor.

  \<^bold>\<open>What is shown.\<close>
  \<^item> The decoder's contract (C1--C6, C16).
  \<^item> Safety of the manager: one task in the connect sequence, one connection attempt,
    one pending retry (C7--C9, C17).
  \<^item> The behaviour of each handler, errors included (C10--C15, C19, C30). A
    failing \<open>client.disconnect()\<close> is swallowed and the \<open>finally\<close> clause still
    runs (C33).
  \<^item> The reported weight's range (C18).
  \<^item> Liveness of the idle disconnect and of the retry (C20, C21). The connect lock
    can always be released by one event (C29).
  \<^item> Refinement of the spec's state machine (C25).
  \<^item> Termination: every pending coroutine can run to its end, with no deadlock on the
    lock (C31).
  \<^item> Setup by the host: a missing address raises \<open>KeyError\<close> (C32).
  \<^item> Defects, as closed runs or as theorems on every reachable state:
    \<^item> as written, the decoder raises \<open>NameError\<close> on every full payload, so no weight
      is ever reported (C2, C14);
    \<^item> a failed \<open>start_notify\<close> leaves the sensor unavailable with an open link for
      good (C22);
    \<^item> the first disconnect timer is never cancelled (C23);
    \<^item> \<open>_disconnect\<close>'s \<open>finally\<close> forgets a newer client whose
      \<open>start_notify\<close> is in flight, leading to two live connections and to
      notifications handled during a connect attempt (C24, C28);
    \<^item> when it has cleared the client while \<open>connect\<close> awaited the connection, line 105
      raises \<open>AttributeError\<close> and the new link is left open and unreferenced (C34);
    \<^item> the transition Connected to AwaitingRetry is missing from the spec (C26);
    \<^item> a dropped link is not noticed (C27).

  \<^bold>\<open>Bounds.\<close> Times are whole seconds and the loop's clock advances by \<open>Tick\<close>; the
  delays of the code (60 s for the disconnect timer and \<open>_connection_retry_interval\<close>)
  are exact in this unit. The connection timeouts of lines 100--101 are not times of the
  model: \<open>Connect_Done t Connect_Timeout\<close> is the timeout's outcome, enabled at any
  moment. There is no fuel: every handler is a non-recursive function, and \<open>run\<close>
  recurses on the event list. A theorem about progress states the run that makes it. The
  run that completes all tasks (C31) is found by induction on a measure: the number of
  resumptions the pending tasks still need, at most 5 per task, plus 6 while the lock's
  holder awaits a connection that line 105 will fail (it creates a retry task of weight
  5). The measure sums over the identities below \<open>next_id\<close>, so it is a computable
  function of the state.

  \<^bold>\<open>Not modelled.\<close>
  \<^item> The host itself: when it polls \<open>async_update\<close>, adds or removes the entity is
    left open (the events \<open>Host_Update\<close>, \<open>Host_Added\<close>, \<open>Host_Remove\<close> may come at
    any time). \<open>hass\<close> and the entity base class are not modelled.
  \<^item> Logging (\<open>_LOGGER\<close> calls throughout) and \<open>async_write_ha_state\<close>
    (lines 87, 150) write nothing the sensor reads back. The model treats them as
    returning normally. The host may refuse \<open>async_write_ha_state\<close> on an entity it has
    not added yet (a notification that arrives during the update before add); that
    behaviour of the host is not modelled. The remaining lines of \<open>src/sensor.py\<close> not
    in the map are imports, constants and blank lines.
  \<^item> The BLE transport and asyncio are libraries. They are modelled from their
    documented interface as the events of the loop; any order of events is allowed, so
    the theorems hold for every scheduling and every transport answer.
\<close>

end
